theory Spec2Isabelle
  imports Complex_Main "HOL-Library.Sublist"
begin

section \<open>JavaScript strings\<close>

text \<open>
  A JavaScript string is a sequence of code units. The model uses \<^typ>\<open>string\<close>, whose
  characters are the code units 0 to 255 (ASCII and Latin-1); source strings with code units
  above 255 are outside the model. The vocabulary, the delimiters and the prompt format of
  the program are plain ASCII.
\<close>

definition LF :: "string" where
  "LF = [CHR 0x0A]"

text \<open>
  \<^verbatim>\<open>String.prototype.trim\<close> strips WhiteSpace and LineTerminator code points from both
  ends. Those below 256 are TAB, LF, VT, FF, CR, SPACE and NBSP.
\<close>

definition isWhiteSpace :: "char \<Rightarrow> bool" where
  "isWhiteSpace c =
     (c \<in> set [CHR 0x09, CHR 0x0A, CHR 0x0B, CHR 0x0C, CHR 0x0D, CHR 0x20, CHR 0xA0])"

definition trim :: "string \<Rightarrow> string" where
  "trim s = rev (dropWhile isWhiteSpace (rev (dropWhile isWhiteSpace s)))"

text \<open>
  \<^verbatim>\<open>String.prototype.toLowerCase\<close> on code units below 256: the letters A to Z and the
  Latin-1 capitals 0xC0 to 0xDE (without the multiplication sign 0xD7) move up by 0x20.
\<close>

definition upperCaseLetters :: "string" where
  "upperCaseLetters = ''ABCDEFGHIJKLMNOPQRSTUVWXYZ'' @
     [CHR 0xC0, CHR 0xC1, CHR 0xC2, CHR 0xC3, CHR 0xC4, CHR 0xC5, CHR 0xC6, CHR 0xC7,
      CHR 0xC8, CHR 0xC9, CHR 0xCA, CHR 0xCB, CHR 0xCC, CHR 0xCD, CHR 0xCE, CHR 0xCF,
      CHR 0xD0, CHR 0xD1, CHR 0xD2, CHR 0xD3, CHR 0xD4, CHR 0xD5, CHR 0xD6,
      CHR 0xD8, CHR 0xD9, CHR 0xDA, CHR 0xDB, CHR 0xDC, CHR 0xDD, CHR 0xDE]"

definition lowerCaseLetters :: "string" where
  "lowerCaseLetters = ''abcdefghijklmnopqrstuvwxyz'' @
     [CHR 0xE0, CHR 0xE1, CHR 0xE2, CHR 0xE3, CHR 0xE4, CHR 0xE5, CHR 0xE6, CHR 0xE7,
      CHR 0xE8, CHR 0xE9, CHR 0xEA, CHR 0xEB, CHR 0xEC, CHR 0xED, CHR 0xEE, CHR 0xEF,
      CHR 0xF0, CHR 0xF1, CHR 0xF2, CHR 0xF3, CHR 0xF4, CHR 0xF5, CHR 0xF6,
      CHR 0xF8, CHR 0xF9, CHR 0xFA, CHR 0xFB, CHR 0xFC, CHR 0xFD, CHR 0xFE]"

definition toLowerCaseChar :: "char \<Rightarrow> char" where
  "toLowerCaseChar c =
     (case map_of (zip upperCaseLetters lowerCaseLetters) c of Some l \<Rightarrow> l | None \<Rightarrow> c)"

definition toLowerCase :: "string \<Rightarrow> string" where
  "toLowerCase s = map toLowerCaseChar s"

text \<open>
  \<^verbatim>\<open>s.split(sep)\<close> for a string separator, and for a regular expression that is a literal
  (\<^verbatim>\<open>/Question: /\<close>): the matches are taken leftmost first and do not overlap; the pieces
  between them are returned, empty ones included. The empty separator splits into code
  units.
\<close>

function split :: "string \<Rightarrow> string \<Rightarrow> string list" where
  "split sep [] = (if sep = [] then [] else [[]])"
| "split sep (c # cs) =
     (if sep = [] then map (\<lambda>x. [x]) (c # cs)
      else if prefix sep (c # cs) then [] # split sep (drop (length sep) (c # cs))
      else (case split sep cs of [] \<Rightarrow> [[c]] | p # ps \<Rightarrow> (c # p) # ps))"
  by pat_completeness auto
termination
  by (relation "measure (\<lambda>(sep, s). length s)") (auto simp: neq_Nil_conv)

text \<open>\<^verbatim>\<open>parts.join(sep)\<close>.\<close>

fun join :: "string \<Rightarrow> string list \<Rightarrow> string" where
  "join sep [] = []"
| "join sep [p] = p"
| "join sep (p # q # ps) = p @ sep @ join sep (q # ps)"

section \<open>Question extraction (generateQuestions)\<close>

text \<open>
  \<^verbatim>\<open>generateQuestions(topic, numQuestions, type)\<close> builds a prompt, sends it to the language
  model and parses the text that comes back. The reply is an input of the model
  (\<open>content\<close>); \<open>topic\<close> and \<open>numQuestions\<close> only shape the prompt. The parsing code is the
  same in \<^verbatim>\<open>interview_prep/simple.js\<close> and in the second source file.

  A parsed multiple-choice question is \<^verbatim>\<open>{ question, options, correct }\<close>, where
  \<open>correct\<close> is \<^verbatim>\<open>undefined\<close> (here \<open>None\<close>) when no line starts with \<^verbatim>\<open>Correct:\<close>; a parsed
  theoretical question is \<^verbatim>\<open>{ question, modelAnswer }\<close>. A \<^verbatim>\<open>TypeError\<close> thrown while
  parsing ends the whole call.
\<close>

datatype jsError = TypeError

datatype parsedQuestion =
    McqQuestion string "string list" "string option"
  | TheoryQuestion string string

text \<open>\<^verbatim>\<open>block.split('\n').filter(line => line.trim())\<close>: the empty string is the only falsy one.\<close>

definition blockLines :: "string \<Rightarrow> string list" where
  "blockLines block = filter (\<lambda>line. trim line \<noteq> []) (split LF block)"

definition parseMcqBlock :: "string \<Rightarrow> jsError + parsedQuestion" where
  "parseMcqBlock block =
     (let lines = blockLines block
      in case lines of
           [] \<Rightarrow> Inl TypeError
         | line0 # _ \<Rightarrow>
             (let question = trim line0;
                  options = map trim (take 4 (drop 1 lines))
              in case find (prefix ''Correct:'') lines of
                   None \<Rightarrow> Inr (McqQuestion question options None)
                 | Some line \<Rightarrow>
                     (case split '':'' line of
                        _ # part # _ \<Rightarrow> Inr (McqQuestion question options (Some (trim part)))
                      | _ \<Rightarrow> Inl TypeError)))"

definition parseTheoryBlock :: "string \<Rightarrow> jsError + parsedQuestion" where
  "parseTheoryBlock block =
     (case split ''Model Answer:'' block of
        [] \<Rightarrow> Inl TypeError
      | question # answerParts \<Rightarrow>
          (let modelAnswer = trim (join ''Model Answer:'' answerParts)
           in Inr (TheoryQuestion (trim question) modelAnswer)))"

text \<open>The \<^verbatim>\<open>for (const block of questionBlocks)\<close> loop: the first throw ends it.\<close>

fun parseBlocks ::
  "(string \<Rightarrow> jsError + parsedQuestion) \<Rightarrow> string list \<Rightarrow> jsError + parsedQuestion list" where
  "parseBlocks f [] = Inr []"
| "parseBlocks f (block # blocks) =
     (case f block of
        Inl e \<Rightarrow> Inl e
      | Inr q \<Rightarrow> (case parseBlocks f blocks of Inl e \<Rightarrow> Inl e | Inr qs \<Rightarrow> Inr (q # qs)))"

text \<open>\<^verbatim>\<open>content.split(/Question: /).filter(block => block.trim())\<close>, the same in both branches.\<close>

definition questionBlocks :: "string \<Rightarrow> string list" where
  "questionBlocks content = filter (\<lambda>block. trim block \<noteq> []) (split ''Question: '' content)"

definition generateQuestions :: "string \<Rightarrow> string \<Rightarrow> jsError + parsedQuestion list" where
  "generateQuestions type content =
     (let questionType =
            (if toLowerCase type = ''mcq'' then ''multiple-choice'' else ''theoretical'')
      in if questionType = ''multiple-choice''
         then parseBlocks parseMcqBlock (questionBlocks content)
         else parseBlocks parseTheoryBlock (questionBlocks content))"

section \<open>Concept tagging (ProgressTrackingAgent.extractConcepts)\<close>

definition technicalTerms :: "string list" where
  "technicalTerms =
     [''array'', ''function'', ''class'', ''object'', ''loop'', ''variable'',
      ''recursion'', ''inheritance'', ''async'', ''promise'', ''component'',
      ''state'', ''props'', ''api'', ''database'', ''algorithm'']"

text \<open>
  A JavaScript \<^verbatim>\<open>Set\<close> keeps its members in insertion order: a list without repetition,
  with \<^verbatim>\<open>add\<close> appending a new member at the end.
\<close>

definition setAdd :: "'a \<Rightarrow> 'a list \<Rightarrow> 'a list" where
  "setAdd x xs = (if x \<in> set xs then xs else xs @ [x])"

definition extractConcepts :: "string \<Rightarrow> string list" where
  "extractConcepts question =
     (let words = split '' '' (toLowerCase question)
      in foldl (\<lambda>concepts word. if word \<in> set technicalTerms then setAdd word concepts else concepts)
           [] words)"

section \<open>JavaScript numbers\<close>

text \<open>
  A JavaScript number is NaN, an infinity or a finite binary64 value; the model takes a
  finite value as the rational it denotes. An arithmetic operation rounds its exact result
  to the nearest binary64 value, the one with the even significand of two equally near
  (\<open>binary64\<close> below), with gradual underflow and with overflow to an infinity. Negative zero
  is taken as zero: no divisor of the program can be a negative zero (they are counters and
  lengths), and \<^verbatim>\<open>toFixed\<close> prints both zeros alike. A number that a caller passes in (a
  \<open>timeTaken\<close>) is a binary64 value.
\<close>

datatype number = NaN | Infinity | NegInfinity | Finite rat

text \<open>The number of binary digits of a positive integer.\<close>

function bitLength :: "int \<Rightarrow> int" where
  "bitLength n = (if 0 < n then bitLength (n div 2) + 1 else 0)"
  by pat_completeness auto
termination
  by (relation "measure nat") auto

declare bitLength.simps [simp del]

definition pow2 :: "int \<Rightarrow> rat" where
  "pow2 k = (if 0 \<le> k then 2 ^ nat k else 1 / 2 ^ nat (- k))"

text \<open>For a positive \<open>x\<close>, the exponent \<open>e\<close> with \<open>2^e \<le> x < 2^(e+1)\<close>.\<close>

definition binaryExponent :: "rat \<Rightarrow> int" where
  "binaryExponent x =
     (let (p, q) = quotient_of x; e = bitLength p - bitLength q
      in if pow2 e \<le> x then e else e - 1)"

text \<open>The nearest integer, the even one of two equally near.\<close>

definition roundTiesToEven :: "rat \<Rightarrow> int" where
  "roundTiesToEven x =
     (let n = \<lfloor>x\<rfloor>; r = x - of_int n
      in if r < 1 / 2 then n else if 1 / 2 < r then n + 1 else if even n then n else n + 1)"

text \<open>
  A binary64 value has a significand of 53 bits and an exponent from -1022 on (below that,
  the subnormal values share the exponent -1022): near \<open>x\<close> the binary64 values are the
  multiples of \<open>2^(e-52)\<close>, where \<open>e\<close> is the exponent of \<open>x\<close>, at least -1022. A rounded value
  from \<open>2^1024\<close> on is an infinity.
\<close>

definition nearestBinary64 :: "rat \<Rightarrow> rat" where
  "nearestBinary64 x =
     (let e = max (binaryExponent \<bar>x\<bar>) (- 1022); ulp = pow2 (e - 52)
      in of_int (roundTiesToEven (x / ulp)) * ulp)"

definition binary64 :: "rat \<Rightarrow> number" where
  "binary64 x =
     (let y = nearestBinary64 x
      in if 1024 \<le> binaryExponent \<bar>y\<bar> then (if 0 < y then Infinity else NegInfinity)
         else Finite y)"

fun numAdd :: "number \<Rightarrow> number \<Rightarrow> number" where
  "numAdd (Finite x) (Finite y) = binary64 (x + y)"
| "numAdd NaN _ = NaN"
| "numAdd _ NaN = NaN"
| "numAdd Infinity NegInfinity = NaN"
| "numAdd NegInfinity Infinity = NaN"
| "numAdd Infinity _ = Infinity"
| "numAdd _ Infinity = Infinity"
| "numAdd NegInfinity _ = NegInfinity"
| "numAdd _ NegInfinity = NegInfinity"

fun numNeg :: "number \<Rightarrow> number" where
  "numNeg NaN = NaN"
| "numNeg Infinity = NegInfinity"
| "numNeg NegInfinity = Infinity"
| "numNeg (Finite x) = Finite (- x)"

definition numSub :: "number \<Rightarrow> number \<Rightarrow> number" where
  "numSub a b = numAdd a (numNeg b)"

fun numMul :: "number \<Rightarrow> number \<Rightarrow> number" where
  "numMul (Finite x) (Finite y) = binary64 (x * y)"
| "numMul NaN _ = NaN"
| "numMul _ NaN = NaN"
| "numMul (Finite x) b =
     (if x = 0 then NaN else if 0 < x then b else numNeg b)"
| "numMul a (Finite y) =
     (if y = 0 then NaN else if 0 < y then a else numNeg a)"
| "numMul Infinity b = b"
| "numMul NegInfinity b = numNeg b"

text \<open>A finite divisor 0 is the positive zero (a counter or a length).\<close>

fun numDiv :: "number \<Rightarrow> number \<Rightarrow> number" where
  "numDiv (Finite x) (Finite y) =
     (if y = 0 then (if x = 0 then NaN else if 0 < x then Infinity else NegInfinity)
      else binary64 (x / y))"
| "numDiv NaN _ = NaN"
| "numDiv _ NaN = NaN"
| "numDiv (Finite x) _ = Finite 0"
| "numDiv a (Finite y) = (if y < 0 then numNeg a else a)"
| "numDiv _ _ = NaN"

text \<open>\<^verbatim>\<open>a < b\<close>: false as soon as one side is NaN.\<close>

fun numLess :: "number \<Rightarrow> number \<Rightarrow> bool" where
  "numLess (Finite x) (Finite y) = (x < y)"
| "numLess NaN _ = False"
| "numLess _ NaN = False"
| "numLess NegInfinity b = (b \<noteq> NegInfinity)"
| "numLess a Infinity = (a \<noteq> Infinity)"
| "numLess _ _ = False"

text \<open>\<^verbatim>\<open>if (x)\<close> on a number or \<^verbatim>\<open>null\<close> (here \<open>None\<close>): 0, NaN and \<^verbatim>\<open>null\<close> are falsy.\<close>

fun truthy :: "number option \<Rightarrow> bool" where
  "truthy None = False"
| "truthy (Some NaN) = False"
| "truthy (Some (Finite x)) = (x \<noteq> 0)"
| "truthy (Some _) = True"

text \<open>
  \<^verbatim>\<open>x.toFixed(2)\<close> returns a string of one of five shapes, which \<open>fixedString\<close> lists:
  \<^verbatim>\<open>"NaN"\<close>, \<^verbatim>\<open>"Infinity"\<close>, \<^verbatim>\<open>"-Infinity"\<close>, a decimal with exactly two digits after the
  point (\<open>FixedDecimal negative n\<close> stands for the digits of \<open>n div 100\<close>, a point and the two
  digits of \<open>n mod 100\<close>, after a minus sign when \<open>negative\<close>), and, from \<open>10^21\<close> on, the
  exponent notation of \<^verbatim>\<open>Number.prototype.toString\<close> (\<open>FixedExponent x\<close>, such as
  \<^verbatim>\<open>"1e+21"\<close>; its digits are not modelled). The decimal is the multiple of 0.01 nearest to
  the exact value of \<open>x\<close>, the larger one of two equally near.
\<close>

datatype fixedString =
    FixedNaN
  | FixedInfinity
  | FixedNegInfinity
  | FixedDecimal bool nat
  | FixedExponent rat

fun toFixed2 :: "number \<Rightarrow> fixedString" where
  "toFixed2 NaN = FixedNaN"
| "toFixed2 Infinity = FixedInfinity"
| "toFixed2 NegInfinity = FixedNegInfinity"
| "toFixed2 (Finite x) =
     (if 10 ^ 21 \<le> \<bar>x\<bar> then FixedExponent x
      else FixedDecimal (x < 0) (nat \<lfloor>\<bar>x\<bar> * 100 + 1 / 2\<rfloor>))"

definition digit :: "nat \<Rightarrow> char" where
  "digit d = ''0123456789'' ! d"

fun digits :: "nat \<Rightarrow> string" where
  "digits n = (if n < 10 then [digit n] else digits (n div 10) @ [digit (n mod 10)])"

declare digits.simps [simp del]

fun render :: "fixedString \<Rightarrow> string option" where
  "render FixedNaN = Some ''NaN''"
| "render FixedInfinity = Some ''Infinity''"
| "render FixedNegInfinity = Some ''-Infinity''"
| "render (FixedDecimal negative n) =
     Some ((if negative then ''-'' else []) @ digits (n div 100) @ ''.'' @
           [digit (n mod 100 div 10), digit (n mod 10)])"
| "render (FixedExponent x) = None"

text \<open>
  The number a string of these shapes converts to (\<^verbatim>\<open>a.mastery - b.mastery\<close>): the binary64
  value nearest to the decimal; the exponent notation gives back the number it was made
  from.
\<close>

fun toNumber :: "fixedString \<Rightarrow> number" where
  "toNumber FixedNaN = NaN"
| "toNumber FixedInfinity = Infinity"
| "toNumber FixedNegInfinity = NegInfinity"
| "toNumber (FixedDecimal negative n) = binary64 ((if negative then - 1 else 1) * of_nat n / 100)"
| "toNumber (FixedExponent x) = Finite x"

text \<open>
  \<^verbatim>\<open>Array.prototype.sort(compare)\<close> is stable. Where \<open>compare\<close> orders the elements
  consistently, its result is the one stable arrangement, which insertion computes; a
  result NaN of \<open>compare\<close> counts as 0. (For an inconsistent \<open>compare\<close> the language leaves
  the order open.)
\<close>

fun insertSorted :: "('a \<Rightarrow> 'a \<Rightarrow> number) \<Rightarrow> 'a \<Rightarrow> 'a list \<Rightarrow> 'a list" where
  "insertSorted compare x [] = [x]"
| "insertSorted compare x (y # ys) =
     (if numLess (Finite 0) (compare x y) then y # insertSorted compare x ys else x # y # ys)"

definition sortBy :: "('a \<Rightarrow> 'a \<Rightarrow> number) \<Rightarrow> 'a list \<Rightarrow> 'a list" where
  "sortBy compare xs = foldr (insertSorted compare) xs []"

section \<open>The progress tracking agent\<close>

subsection \<open>State\<close>

text \<open>
  \<^verbatim>\<open>{ correct, total }\<close>, the shape of the entries of \<^verbatim>\<open>conceptMastery\<close> and of
  \<^verbatim>\<open>conceptsTests\<close>, and the first two fields of a topic's statistics (\<open>total\<close> is written
  \<open>total'\<close>).
\<close>

record counts =
  correct :: nat
  total' :: nat

text \<open>
  A counter starts at 0 and changes by \<^verbatim>\<open>++\<close> only. The model keeps the number of
  increments; the binary64 value of the counter is that number up to \<open>2^53\<close>, where it
  stays (\<open>2^53 + 1\<close> rounds back to \<open>2^53\<close>).
\<close>

definition counterValue :: "nat \<Rightarrow> number" where
  "counterValue n = Finite (of_int (min (int n) 9007199254740992))"

datatype jsValue = NumberValue number | StringValue fixedString

text \<open>
  A topic's statistics \<^verbatim>\<open>{ correct, total, weakAreas, conceptsTests, averageTime }\<close>; the
  topic's \<^verbatim>\<open>weakAreas\<close> is the field \<open>topicWeakAreas\<close>. \<^verbatim>\<open>averageTime\<close> starts as the number 0
  and becomes what \<^verbatim>\<open>calculateAverageTime\<close> returns. \<^verbatim>\<open>conceptsTests\<close> is an object keyed by
  vocabulary words, none of which looks like an array index, so \<^verbatim>\<open>Object.entries\<close> lists it
  in insertion order: an association list.
\<close>

record topicStats = counts +
  topicWeakAreas :: "string list"
  conceptsTests :: "(string \<times> counts) list"
  averageTime :: jsValue

text \<open>
  An entry of \<^verbatim>\<open>questionHistory\<close>:
  \<^verbatim>\<open>{ topic, question, isCorrect, evaluation, timeTaken, concepts, timestamp }\<close>.
  \<^verbatim>\<open>new Date()\<close> is an input of the call (\<open>now\<close>, in milliseconds).
\<close>

datatype historyEntry =
  HistoryEntry string string bool string "number option" "string list" int

text \<open>
  The fields of the agent. \<^verbatim>\<open>topicPerformance\<close> and \<^verbatim>\<open>timeSpent\<close> are objects keyed by the
  caller's topic strings: maps, which hold the objects' own properties.
\<close>

record agent =
  correctAnswers :: nat
  totalQuestions :: nat
  topicPerformance :: "string \<rightharpoonup> topicStats"
  weakAreas :: "string list"
  questionHistory :: "historyEntry list"
  conceptMastery :: "(string \<times> counts) list"
  timeSpent :: "string \<rightharpoonup> number list"

definition newProgressTrackingAgent :: agent where
  "newProgressTrackingAgent =
     \<lparr>correctAnswers = 0, totalQuestions = 0, topicPerformance = Map.empty, weakAreas = [],
      questionHistory = [], conceptMastery = [], timeSpent = Map.empty\<rparr>"

text \<open>
  \<^verbatim>\<open>obj[key]\<close> on an object created by \<^verbatim>\<open>{}\<close>: an own property, or else what
  \<^verbatim>\<open>Object.prototype\<close> has under that name (a function, or for \<^verbatim>\<open>__proto__\<close> the prototype
  itself: truthy, and without \<^verbatim>\<open>conceptsTests\<close>, \<^verbatim>\<open>weakAreas\<close> or \<^verbatim>\<open>push\<close>), or else
  \<^verbatim>\<open>undefined\<close>.
\<close>

definition objectPrototypeKeys :: "string list" where
  "objectPrototypeKeys =
     [''constructor'', ''__defineGetter__'', ''__defineSetter__'', ''hasOwnProperty'',
      ''__lookupGetter__'', ''__lookupSetter__'', ''isPrototypeOf'', ''propertyIsEnumerable'',
      ''toString'', ''valueOf'', ''__proto__'', ''toLocaleString'']"

datatype 'a property = Undefined | Own 'a | Inherited

definition getProperty :: "(string \<rightharpoonup> 'a) \<Rightarrow> string \<Rightarrow> 'a property" where
  "getProperty obj key =
     (case obj key of
        Some v \<Rightarrow> Own v
      | None \<Rightarrow> if key \<in> set objectPrototypeKeys then Inherited else Undefined)"

subsection \<open>calculateAverageTime\<close>

text \<open>
  \<^verbatim>\<open>const times = this.timeSpent[topic]; return times.length > 0 ? (times.reduce((a, b) =>
  a + b, 0) / times.length).toFixed(2) : 0;\<close> Without a property, \<^verbatim>\<open>times\<close> is \<^verbatim>\<open>undefined\<close>
  and \<^verbatim>\<open>times.length\<close> throws. An inherited property is a function, whose \<^verbatim>\<open>length\<close> is its
  number of parameters and which has no \<^verbatim>\<open>reduce\<close>, or for \<^verbatim>\<open>__proto__\<close> the prototype
  itself, whose \<^verbatim>\<open>length\<close> is \<^verbatim>\<open>undefined\<close>.
\<close>

definition prototypeLength :: "string \<Rightarrow> nat option" where
  "prototypeLength key =
     map_of [(''constructor'', 1), (''__defineGetter__'', 2), (''__defineSetter__'', 2),
             (''hasOwnProperty'', 1), (''__lookupGetter__'', 1), (''__lookupSetter__'', 1),
             (''isPrototypeOf'', 1), (''propertyIsEnumerable'', 1), (''toString'', 0),
             (''valueOf'', 0), (''toLocaleString'', 0)] key"

definition calculateAverageTime :: "agent \<Rightarrow> string \<Rightarrow> jsError + jsValue" where
  "calculateAverageTime this topic =
     (case getProperty (timeSpent this) topic of
        Undefined \<Rightarrow> Inl TypeError
      | Own times' \<Rightarrow>
          Inr (if length times' > 0
               then StringValue
                      (toFixed2 (numDiv (foldl numAdd (Finite 0) times')
                                   (Finite (of_nat (length times')))))
               else NumberValue (Finite 0))
      | Inherited \<Rightarrow>
          (case prototypeLength topic of
             None \<Rightarrow> Inr (NumberValue (Finite 0))
           | Some n \<Rightarrow> if n > 0 then Inl TypeError else Inr (NumberValue (Finite 0))))"

subsection \<open>trackAnswer\<close>

text \<open>
  \<^verbatim>\<open>if (!m[concept]) m[concept] = { correct: 0, total: 0 }; m[concept].total++;
  if (isCorrect) m[concept].correct++;\<close> on one of the two concept tables. The keys are
  vocabulary words and none of them is a property of \<^verbatim>\<open>Object.prototype\<close>.
\<close>

definition countAnswer :: "bool \<Rightarrow> string \<Rightarrow> (string \<times> counts) list \<Rightarrow> (string \<times> counts) list" where
  "countAnswer isCorrect concept m =
     (let m = (if map_of m concept = None then m @ [(concept, \<lparr>correct = 0, total' = 0\<rparr>)] else m)
      in map (\<lambda>(key, stats).
                if key = concept
                then (key, stats\<lparr>total' := total' stats + 1,
                                  correct := (if isCorrect then correct stats + 1 else correct stats)\<rparr>)
                else (key, stats)) m)"

text \<open>The body of the first \<^verbatim>\<open>concepts.forEach\<close>, on the global and the topic's table.\<close>

definition trackConcept ::
  "bool \<Rightarrow> (string \<times> counts) list \<times> (string \<times> counts) list \<Rightarrow> string \<Rightarrow>
     (string \<times> counts) list \<times> (string \<times> counts) list" where
  "trackConcept isCorrect tables concept =
     (countAnswer isCorrect concept (fst tables), countAnswer isCorrect concept (snd tables))"

text \<open>
  \<^verbatim>\<open>if (timeTaken) { if (!this.timeSpent[topic]) this.timeSpent[topic] = [];
  this.timeSpent[topic].push(timeTaken); topicStats.averageTime =
  this.calculateAverageTime(topic); }\<close>: the error thrown, if any, the agent with the new
  \<^verbatim>\<open>timeSpent\<close> and, when it was computed, the new average. An inherited property has no
  \<^verbatim>\<open>push\<close>.
\<close>

definition recordTime ::
  "agent \<Rightarrow> string \<Rightarrow> number option \<Rightarrow> jsError option \<times> agent \<times> jsValue option" where
  "recordTime this topic timeTaken =
     (case timeTaken of
        None \<Rightarrow> (None, this, None)
      | Some t \<Rightarrow>
          if truthy timeTaken
          then (case getProperty (timeSpent this) topic of
                  Inherited \<Rightarrow> (Some TypeError, this, None)
                | found \<Rightarrow>
                    (let times' = (case found of Own l \<Rightarrow> l | _ \<Rightarrow> []);
                         this = this\<lparr>timeSpent := (timeSpent this)(topic \<mapsto> times' @ [t])\<rparr>
                     in case calculateAverageTime this topic of
                          Inl e \<Rightarrow> (Some e, this, None)
                        | Inr average \<Rightarrow> (None, this, Some average)))
          else (None, this, None))"

text \<open>
  The second \<^verbatim>\<open>concepts.forEach\<close> (run when \<^verbatim>\<open>isCorrect\<close> is false), on the global weak
  areas and the topic's. Reading \<^verbatim>\<open>.correct\<close> of a missing entry would throw. The literal
  \<^verbatim>\<open>0.7\<close> is the binary64 value nearest to 7/10.
\<close>

fun updateWeakAreas ::
  "(string \<times> counts) list \<Rightarrow> string list \<Rightarrow> string list \<times> string list \<Rightarrow>
     jsError option \<times> string list \<times> string list" where
  "updateWeakAreas mastery [] (weak, topicWeak) = (None, weak, topicWeak)"
| "updateWeakAreas mastery (concept # concepts) (weak, topicWeak) =
     (case map_of mastery concept of
        None \<Rightarrow> (Some TypeError, weak, topicWeak)
      | Some stats \<Rightarrow>
          if numLess (numDiv (counterValue (correct stats)) (counterValue (total' stats)))
               (binary64 (7 / 10))
          then updateWeakAreas mastery concepts (setAdd concept weak, setAdd concept topicWeak)
          else updateWeakAreas mastery concepts (weak, topicWeak))"

definition newTopicStats :: topicStats where
  "newTopicStats =
     \<lparr>correct = 0, total' = 0, topicWeakAreas = [], conceptsTests = [],
      averageTime = NumberValue (Finite 0)\<rparr>"

text \<open>
  \<^verbatim>\<open>trackAnswer(topic, question, isCorrect, evaluation, timeTaken = null)\<close> returns nothing
  and changes the agent; the model returns the error thrown, if any, and the agent as the
  call leaves it (a throw keeps the changes made before it).
  Arrays, sets and objects grow without bound in the model.

  When \<^verbatim>\<open>this.topicPerformance[topic]\<close> is a property inherited from \<^verbatim>\<open>Object.prototype\<close>,
  the guard \<^verbatim>\<open>if (!this.topicPerformance[topic])\<close> does not create the statistics, and
  \<^verbatim>\<open>topicStats\<close> is the inherited object: its counters are written on that object, outside
  the agent (for \<^verbatim>\<open>__proto__\<close>, on the prototype, as properties \<^verbatim>\<open>total\<close> and \<^verbatim>\<open>correct\<close>
  with the falsy value NaN, which every guard of \<open>trackAnswer\<close> takes as absent);
  \<^verbatim>\<open>topicStats.conceptsTests\<close> is \<^verbatim>\<open>undefined\<close>, so the first concept throws once the global
  table has counted it.
\<close>

definition trackAnswer ::
  "agent \<Rightarrow> string \<Rightarrow> string \<Rightarrow> bool \<Rightarrow> string \<Rightarrow> number option \<Rightarrow> int \<Rightarrow> jsError option \<times> agent" where
  "trackAnswer this topic question isCorrect evaluation timeTaken now =
     (let this = this\<lparr>totalQuestions := totalQuestions this + 1,
                      correctAnswers :=
                        (if isCorrect then correctAnswers this + 1 else correctAnswers this)\<rparr>;
          concepts = extractConcepts question;
          entry = HistoryEntry topic question isCorrect evaluation timeTaken concepts now
      in case getProperty (topicPerformance this) topic of
           Inherited \<Rightarrow>
             (case recordTime this topic timeTaken of
                (Some e, this, average) \<Rightarrow> (Some e, this)
              | (None, this, average) \<Rightarrow>
                  (case concepts of
                     [] \<Rightarrow> (None, this\<lparr>questionHistory := questionHistory this @ [entry]\<rparr>)
                   | concept # rest \<Rightarrow>
                       (Some TypeError,
                        this\<lparr>conceptMastery := countAnswer isCorrect concept (conceptMastery this)\<rparr>)))
         | found \<Rightarrow>
             (let topicStats = (case found of Own stats \<Rightarrow> stats | _ \<Rightarrow> newTopicStats);
                  topicStats = topicStats\<lparr>total' := total' topicStats + 1,
                                           correct := (if isCorrect then correct topicStats + 1
                                                       else correct topicStats)\<rparr>;
                  this = this\<lparr>topicPerformance := (topicPerformance this)(topic \<mapsto> topicStats)\<rparr>
              in case recordTime this topic timeTaken of
                   (Some e, this, average) \<Rightarrow> (Some e, this)
                 | (None, this, average) \<Rightarrow>
                     (let topicStats = (case average of
                                          Some a \<Rightarrow> topicStats\<lparr>averageTime := a\<rparr>
                                        | None \<Rightarrow> topicStats);
                          tables = foldl (trackConcept isCorrect)
                                     (conceptMastery this, conceptsTests topicStats) concepts;
                          topicStats = topicStats\<lparr>conceptsTests := snd tables\<rparr>;
                          history = questionHistory this @ [entry];
                          weak = (if \<not> isCorrect
                                  then updateWeakAreas (fst tables) concepts
                                         (weakAreas this, topicWeakAreas topicStats)
                                  else (None, weakAreas this, topicWeakAreas topicStats));
                          topicStats = topicStats\<lparr>topicWeakAreas := snd (snd weak)\<rparr>
                      in (fst weak,
                          this\<lparr>topicPerformance := (topicPerformance this)(topic \<mapsto> topicStats),
                               conceptMastery := fst tables,
                               questionHistory := history,
                               weakAreas := fst (snd weak)\<rparr>))))"

text \<open>A finite sequence of calls on a fresh agent; the caller may go on after a throw.\<close>

datatype call = TrackAnswer string string bool string "number option" int

fun perform :: "agent \<Rightarrow> call \<Rightarrow> agent" where
  "perform this (TrackAnswer topic question isCorrect evaluation timeTaken now) =
     snd (trackAnswer this topic question isCorrect evaluation timeTaken now)"

definition afterCalls :: "call list \<Rightarrow> agent" where
  "afterCalls calls = foldl perform newProgressTrackingAgent calls"

subsection \<open>generateRecommendedFocus and getPerformanceReport\<close>

text \<open>\<^verbatim>\<open>((stats.correct / stats.total) * 100).toFixed(2)\<close>.\<close>

definition percentageOf :: "nat \<Rightarrow> nat \<Rightarrow> fixedString" where
  "percentageOf c t = toFixed2 (numMul (numDiv (counterValue c) (counterValue t)) (Finite 100))"

text \<open>
  \<^verbatim>\<open>(stats.correct / stats.total) < bound\<close>, for a decimal literal \<open>bound\<close> of the source
  (\<^verbatim>\<open>0.6\<close>, \<^verbatim>\<open>0.8\<close>): the binary64 value nearest to it.
\<close>

definition ratioBelow :: "counts \<Rightarrow> rat \<Rightarrow> bool" where
  "ratioBelow stats bound =
     numLess (numDiv (counterValue (correct stats)) (counterValue (total' stats))) (binary64 bound)"

text \<open>A recommendation \<^verbatim>\<open>{ concept, type, mastery }\<close>; \<open>type\<close> is \<^verbatim>\<open>'weak'\<close> or \<^verbatim>\<open>'practice'\<close>.\<close>

record recommendation =
  concept :: string
  type :: string
  mastery :: fixedString

text \<open>
  In the first loop \<^verbatim>\<open>this.conceptMastery[concept]\<close> of a concept without an entry is
  \<^verbatim>\<open>undefined\<close>, or an inherited property whose \<^verbatim>\<open>correct / total\<close> is NaN: no
  recommendation either way.
\<close>

definition generateRecommendedFocus :: "agent \<Rightarrow> recommendation list" where
  "generateRecommendedFocus this =
     (let weak = concat (map (\<lambda>c.
                   case map_of (conceptMastery this) c of
                     None \<Rightarrow> []
                   | Some m \<Rightarrow>
                       if ratioBelow m (6 / 10)
                       then [\<lparr>concept = c, type = ''weak'',
                              mastery = percentageOf (correct m) (total' m)\<rparr>]
                       else []) (weakAreas this));
          practice = concat (map (\<lambda>(c, stats).
                       if c \<notin> set (weakAreas this) \<and> ratioBelow stats (8 / 10)
                       then [\<lparr>concept = c, type = ''practice'',
                              mastery = percentageOf (correct stats) (total' stats)\<rparr>]
                       else []) (conceptMastery this))
      in sortBy (\<lambda>a b. numSub (toNumber (mastery a)) (toNumber (mastery b))) (weak @ practice))"

text \<open>
  The report. \<^verbatim>\<open>overall\<close> and the entries of \<^verbatim>\<open>conceptMastery\<close> are
  \<^verbatim>\<open>{ correct, total, percentage }\<close>; an entry of \<^verbatim>\<open>topicWise\<close> has \<^verbatim>\<open>weakAreas\<close> and
  \<^verbatim>\<open>averageTime\<close> as well (here \<open>reportedWeakAreas\<close> and \<open>reportedAverageTime\<close>). The report's
  \<^verbatim>\<open>conceptMastery\<close> and \<^verbatim>\<open>weakAreas\<close> are the fields \<open>conceptMasteryReport\<close> and
  \<open>weakAreasReport\<close>; \<^verbatim>\<open>timeAnalysis\<close> stays the empty object. \<^verbatim>\<open>Object.entries\<close> lists own
  properties only.
\<close>

record percentageReport = counts +
  percentage :: fixedString

record topicReport = percentageReport +
  reportedWeakAreas :: "string list"
  reportedAverageTime :: jsValue

record report =
  overall :: percentageReport
  topicWise :: "string \<rightharpoonup> topicReport"
  conceptMasteryReport :: "(string \<times> percentageReport) list"
  weakAreasReport :: "string list"
  timeAnalysis :: unit
  recommendedFocus :: "recommendation list"

definition getPerformanceReport :: "agent \<Rightarrow> report" where
  "getPerformanceReport this =
     \<lparr>overall = \<lparr>correct = correctAnswers this, total' = totalQuestions this,
                  percentage = percentageOf (correctAnswers this) (totalQuestions this)\<rparr>,
      topicWise = (\<lambda>topic.
         case topicPerformance this topic of
           None \<Rightarrow> None
         | Some stats \<Rightarrow>
             Some \<lparr>correct = correct stats, total' = total' stats,
                   percentage = percentageOf (correct stats) (total' stats),
                   reportedWeakAreas = topicWeakAreas stats,
                   reportedAverageTime = averageTime stats\<rparr>),
      conceptMasteryReport =
        map (\<lambda>(c, stats). (c, \<lparr>correct = correct stats, total' = total' stats,
                                 percentage = percentageOf (correct stats) (total' stats)\<rparr>))
          (conceptMastery this),
      weakAreasReport = weakAreas this,
      timeAnalysis = (),
      recommendedFocus = generateRecommendedFocus this\<rparr>"

section \<open>Notions used to state the properties\<close>

subsection \<open>The spec's wording\<close>

text \<open>
  Follows the spec's words, for comparison with \<open>extractConcepts\<close>: "lower-case the text,
  split on whitespace into tokens, and intersect with a fixed vocabulary".
\<close>

fun whitespaceTokens :: "string \<Rightarrow> string \<Rightarrow> string list" where
  "whitespaceTokens acc [] = (if acc = [] then [] else [rev acc])"
| "whitespaceTokens acc (c # cs) =
     (if isWhiteSpace c then (if acc = [] then [] else [rev acc]) @ whitespaceTokens [] cs
      else whitespaceTokens (c # acc) cs)"

definition tagConcepts :: "string \<Rightarrow> string set" where
  "tagConcepts questionText =
     set (whitespaceTokens [] (toLowerCase questionText)) \<inter> set technicalTerms"

text \<open>Follows the spec's words: "the text after the first colon" of a line.\<close>

definition afterFirstColon :: "string \<Rightarrow> string" where
  "afterFirstColon line = drop 1 (dropWhile (\<lambda>c. c \<noteq> CHR '':'') line)"

text \<open>
  The mean of a list of samples as binary64 arithmetic computes it: the samples are added
  from left to right, starting from 0, and the sum is divided by their number.
\<close>

definition arithmeticMean :: "number list \<Rightarrow> number" where
  "arithmeticMean samples =
     numDiv (foldl numAdd (Finite 0) samples) (Finite (of_nat (length samples)))"

subsection \<open>Replies in the prompt's format\<close>

text \<open>
  The prompt of \<open>generateQuestions\<close> asks for every multiple-choice question in the format
  \<^verbatim>\<open>Question: [question text]\<close>, \<^verbatim>\<open>A) [option]\<close>, \<^verbatim>\<open>B) [option]\<close>, \<^verbatim>\<open>C) [option]\<close>,
  \<^verbatim>\<open>D) [option]\<close>, \<^verbatim>\<open>Correct: [A/B/C/D]\<close>, one line each. \<open>McqText q a b c d l gap\<close> is such a
  question: its text, its four options, the letter of the correct one and the number of
  line feeds that follow it in the reply (none, one, or more for blank lines).
\<close>

datatype mcqText = McqText string string string string string char nat



text \<open>
  A question is in the prompt's format (well formed) when its text and its options are one
  line each and its letter is one of A, B, C, D.
\<close>

definition oneLine :: "string \<Rightarrow> bool" where
  "oneLine s = (CHR 0x0A \<notin> set s)"

fun wellFormedMcq :: "mcqText \<Rightarrow> bool" where
  "wellFormedMcq (McqText q a b c d l gap) =
     (oneLine q \<and> oneLine a \<and> oneLine b \<and> oneLine c \<and> oneLine d \<and> l \<in> set ''ABCD'')"

text \<open>
  Two side conditions, which the format does not state: no question text or option holds
  the delimiter \<^verbatim>\<open>Question: \<close>, and the question text is not blank and does not itself
  start with \<^verbatim>\<open>Correct:\<close>.
\<close>

fun delimiterFree :: "mcqText \<Rightarrow> bool" where
  "delimiterFree (McqText q a b c d l gap) =
     (\<not> sublist ''Question: '' q \<and> \<not> sublist ''Question: '' a \<and> \<not> sublist ''Question: '' b \<and>
      \<not> sublist ''Question: '' c \<and> \<not> sublist ''Question: '' d)"

fun plainQuestion :: "mcqText \<Rightarrow> bool" where
  "plainQuestion (McqText q a b c d l gap) = (trim q \<noteq> [] \<and> \<not> prefix ''Correct:'' q)"

text \<open>A question in the format that meets both side conditions.\<close>

definition readableMcq :: "mcqText \<Rightarrow> bool" where
  "readableMcq item = (wellFormedMcq item \<and> delimiterFree item \<and> plainQuestion item)"

definition plainLine :: "string \<Rightarrow> bool" where
  "plainLine s = (CHR 0x0A \<notin> set s \<and> \<not> sublist ''Question: '' s)"


subsection \<open>Sequences of calls\<close>

fun callTopic :: "call \<Rightarrow> string" where
  "callTopic (TrackAnswer topic question isCorrect evaluation timeTaken now) = topic"

text \<open>The time samples of a topic: the truthy \<open>timeTaken\<close> of its calls, in order.\<close>

fun callSample :: "string \<Rightarrow> call \<Rightarrow> number list" where
  "callSample topic (TrackAnswer topic' question isCorrect evaluation timeTaken now) =
     (case timeTaken of
        None \<Rightarrow> []
      | Some t \<Rightarrow> if topic' = topic \<and> truthy timeTaken then [t] else [])"

definition timeSamples :: "string \<Rightarrow> call list \<Rightarrow> number list" where
  "timeSamples topic calls = concat (map (callSample topic) calls)"

subsection \<open>Invariants of the agent\<close>

text \<open>A concept table has one entry per key, each counted at least once.\<close>

definition countsInvariant :: "(string \<times> counts) list \<Rightarrow> bool" where
  "countsInvariant m =
     (distinct (map fst m) \<and> (\<forall>(k, s) \<in> set m. correct s \<le> total' s \<and> 1 \<le> total' s))"

definition agentInvariant :: "agent \<Rightarrow> bool" where
  "agentInvariant a =
     (correctAnswers a \<le> totalQuestions a \<and>
      countsInvariant (conceptMastery a) \<and>
      distinct (weakAreas a) \<and>
      set (weakAreas a) \<subseteq> fst ` set (conceptMastery a) \<and>
      (\<forall>topic \<in> set objectPrototypeKeys.
         topicPerformance a topic = None \<and> timeSpent a topic = None) \<and>
      (\<forall>topic stats. topicPerformance a topic = Some stats \<longrightarrow>
         correct stats \<le> total' stats \<and> 1 \<le> total' stats \<and>
         countsInvariant (conceptsTests stats) \<and>
         distinct (topicWeakAreas stats) \<and>
         set (topicWeakAreas stats) \<subseteq> set (weakAreas a)))"

text \<open>What the agent holds about the time of a topic after a sequence of calls.\<close>

definition timeRecorded :: "string \<Rightarrow> call list \<Rightarrow> bool" where
  "timeRecorded topic calls =
     (let a = afterCalls calls; samples = timeSamples topic calls in
      (topicPerformance a topic = None \<longleftrightarrow> topic \<notin> callTopic ` set calls) \<and>
      timeSpent a topic = (if samples = [] then None else Some samples) \<and>
      (\<forall>stats. topicPerformance a topic = Some stats \<longrightarrow>
         averageTime stats =
           (if samples = [] then NumberValue (Finite 0)
            else StringValue (toFixed2 (arithmeticMean samples)))))"

text \<open>Two steps of \<open>trackAnswer\<close> by name: the counters, and the weak-area update.\<close>

definition counted :: "bool \<Rightarrow> agent \<Rightarrow> agent" where
  "counted b a = a\<lparr>totalQuestions := totalQuestions a + 1,
                    correctAnswers := (if b then correctAnswers a + 1 else correctAnswers a)\<rparr>"

definition weakUpdate ::
  "bool \<Rightarrow> (string \<times> counts) list \<Rightarrow> string list \<Rightarrow> string list \<times> string list \<Rightarrow>
     jsError option \<times> string list \<times> string list" where
  "weakUpdate b M cs ws = (if \<not> b then updateWeakAreas M cs ws else (None, ws))"

text \<open>The hundredths of a decimal \<open>mastery\<close> without sign.\<close>

definition hundredths :: "recommendation \<Rightarrow> nat" where
  "hundredths e = (case mastery e of FixedDecimal negative n \<Rightarrow> n | _ \<Rightarrow> 0)"

subsection \<open>Sample inputs\<close>

definition tabbedQuestion :: string where
  "tabbedQuestion = ''Sort an Array with a loop or'' @ [CHR 0x09] @ ''recursion and an array''"

definition secondColonSegment :: string where
  "secondColonSegment =
     ''What is X?'' @ LF @ ''A) a'' @ LF @ ''B) b'' @ LF @ ''C) c'' @ LF @ ''D) d'' @ LF @
     ''Correct: A: because it is first'' @ LF"

definition unmarkedContent :: string where
  "unmarkedContent =
     ''Question: What is X?'' @ LF @ ''A) a'' @ LF @ ''Correct: A'' @ LF @
     ''Question: What is Y?'' @ LF @ ''A) a'' @ LF @ ''B) b''"


text \<open>
  Three wrong answers on "function"; one wrong and two right answers on "loop", timed;
  three right answers and a wrong one on "array", the last one timed with 0 seconds.
\<close>

definition sampleCalls :: "call list" where
  "sampleCalls =
     [TrackAnswer ''JS'' ''What is a function in JS?'' False ''Incorrect.'' None 0,
      TrackAnswer ''JS'' ''What is a function in JS?'' False ''Incorrect.'' None 1,
      TrackAnswer ''JS'' ''What is a function in JS?'' False ''Incorrect.'' None 2,
      TrackAnswer ''JS'' ''Write a loop'' False ''Incorrect.'' (Some (Finite 5)) 3,
      TrackAnswer ''JS'' ''Write a loop'' True ''Correct!'' (Some (Finite 2)) 4,
      TrackAnswer ''JS'' ''Write a loop'' True ''Correct!'' (Some (Finite 2)) 5,
      TrackAnswer ''Arrays'' ''Reverse an array'' True ''Correct!'' None 6,
      TrackAnswer ''Arrays'' ''Reverse an array'' True ''Correct!'' None 7,
      TrackAnswer ''Arrays'' ''Reverse an array'' True ''Correct!'' None 8,
      TrackAnswer ''Arrays'' ''Reverse an array'' False ''Incorrect.'' (Some (Finite 0)) 9]"

text \<open>
  One wrong and one right answer on "class", then a wrong answer on "function": both are
  weak areas, "class" the older one. Three right answers and a wrong one on "loop".
\<close>

definition reorderCalls :: "call list" where
  "reorderCalls =
     [TrackAnswer ''JS'' ''Write a class'' False ''Incorrect.'' None 0,
      TrackAnswer ''JS'' ''Write a class'' True ''Correct!'' None 1,
      TrackAnswer ''JS'' ''What is a function in JS?'' False ''Incorrect.'' None 2,
      TrackAnswer ''JS'' ''Write a loop'' True ''Correct!'' None 3,
      TrackAnswer ''JS'' ''Write a loop'' True ''Correct!'' None 4,
      TrackAnswer ''JS'' ''Write a loop'' True ''Correct!'' None 5,
      TrackAnswer ''JS'' ''Write a loop'' False ''Incorrect.'' None 6]"

text \<open>Five timed answers: four of one second and one of 1.125 seconds.\<close>

definition timedCalls :: "call list" where
  "timedCalls =
     [TrackAnswer ''JS'' ''Write a loop'' True ''Correct!'' (Some (Finite 1)) 0,
      TrackAnswer ''JS'' ''Write a loop'' True ''Correct!'' (Some (Finite 1)) 1,
      TrackAnswer ''JS'' ''Write a loop'' True ''Correct!'' (Some (Finite 1)) 2,
      TrackAnswer ''JS'' ''Write a loop'' True ''Correct!'' (Some (Finite 1)) 3,
      TrackAnswer ''JS'' ''Write a loop'' True ''Correct!'' (Some (Finite (9 / 8))) 4]"



section \<open>Binary64 rounding\<close>

lemma bitLength_nonpos: "n \<le> 0 \<Longrightarrow> bitLength n = 0"
  by (subst bitLength.simps) simp

lemma bitLength_bounds:
  "0 < n \<Longrightarrow> 1 \<le> bitLength n \<and> 2 ^ nat (bitLength n - 1) \<le> n \<and> n < 2 ^ nat (bitLength n)"
proof (induction n rule: bitLength.induct)
  case (1 n)
  show ?case
  proof (cases "n = 1")
    case True
    have "bitLength 1 = 1"
      by (subst bitLength.simps) (simp add: bitLength_nonpos)
    then show ?thesis using True by simp
  next
    case False
    then have h: "0 < n div 2" using 1(2) by simp
    define b where "b = bitLength (n div 2)"
    have ih: "1 \<le> b" "2 ^ nat (b - 1) \<le> n div 2" "n div 2 < 2 ^ nat b"
      using 1(1)[OF 1(2) h] by (simp_all add: b_def)
    have e: "bitLength n = b + 1"
      using 1(2) by (subst bitLength.simps) (simp add: b_def)
    have p: "(2::int) ^ nat b = 2 * 2 ^ nat (b - 1)"
      using ih(1) by (metis Suc_nat_eq_nat_zadd1 add.commute diff_add_cancel diff_ge_0_iff_ge power_Suc)
    have q: "(2::int) ^ nat (b + 1) = 2 * 2 ^ nat b"
      using ih(1) by (simp add: nat_add_distrib)
    have "2 * (n div 2) \<le> n" by simp
    moreover have "n < 2 * (n div 2) + 2" by presburger
    ultimately show ?thesis
      unfolding e using ih p q by simp
  qed
qed

lemma pow2_pos: "0 < pow2 k"
  by (simp add: pow2_def)

lemma pow2_nat: "pow2 (int n) = 2 ^ n"
  by (simp add: pow2_def)

lemma pow2_eq: "pow2 k = 2 powi k"
  by (simp add: pow2_def power_int_def field_simps)

lemma pow2_add: "pow2 (a + b) = pow2 a * pow2 b"
  by (simp add: pow2_eq power_int_add)

lemma pow2_diff: "pow2 (a - b) = pow2 a / pow2 b"
  by (simp add: pow2_eq power_int_diff)

lemma pow2_mono: "a \<le> b \<Longrightarrow> pow2 a \<le> pow2 b"
  by (simp add: pow2_eq power_int_increasing)

lemma pow2_less: "pow2 a < pow2 b \<Longrightarrow> a < b"
  using pow2_mono[of b a] by (cases "a < b") auto


lemma binaryExponent_bounds:
  assumes "0 < x"
  shows "pow2 (binaryExponent x) \<le> x \<and> x < pow2 (binaryExponent x + 1)"
proof -
  obtain p q where pq: "quotient_of x = (p, q)" by (cases "quotient_of x")
  have q: "0 < q" using pq by (rule quotient_of_denom_pos)
  have x: "x = of_int p / of_int q" using pq by (rule quotient_of_div)
  have p: "0 < p" using assms q unfolding x by (simp add: zero_less_divide_iff)
  define bp where "bp = bitLength p"
  define bq where "bq = bitLength q"
  have P: "1 \<le> bp" "2 ^ nat (bp - 1) \<le> p" "p < 2 ^ nat bp"
    using bitLength_bounds[OF p] by (simp_all add: bp_def)
  have Q: "1 \<le> bq" "2 ^ nat (bq - 1) \<le> q" "q < 2 ^ nat bq"
    using bitLength_bounds[OF q] by (simp_all add: bq_def)
  have rp: "pow2 (bp - 1) \<le> of_int p" "of_int p < pow2 bp"
  proof -
    have "(of_int (2 ^ nat (bp - 1)) :: rat) \<le> of_int p" using P(2) by (simp only: of_int_le_iff)
    then show "pow2 (bp - 1) \<le> of_int p" using P(1) by (simp add: pow2_def)
    have "(of_int p :: rat) < of_int (2 ^ nat bp)" using P(3) by (simp only: of_int_less_iff)
    then show "of_int p < pow2 bp" using P(1) by (simp add: pow2_def)
  qed
  have rq: "pow2 (bq - 1) \<le> of_int q" "of_int q < pow2 bq"
  proof -
    have "(of_int (2 ^ nat (bq - 1)) :: rat) \<le> of_int q" using Q(2) by (simp only: of_int_le_iff)
    then show "pow2 (bq - 1) \<le> of_int q" using Q(1) by (simp add: pow2_def)
    have "(of_int q :: rat) < of_int (2 ^ nat bq)" using Q(3) by (simp only: of_int_less_iff)
    then show "of_int q < pow2 bq" using Q(1) by (simp add: pow2_def)
  qed
  have qpos: "(0::rat) < of_int q" using q by simp
  have up: "x < pow2 (bp - bq + 1)"
  proof -
    have "x < pow2 bp / of_int q"
      unfolding x using rp(2) qpos by (simp add: divide_strict_right_mono)
    also have "\<dots> \<le> pow2 bp / pow2 (bq - 1)"
      using rq(1) pow2_pos[of bp] pow2_pos[of "bq - 1"] by (simp add: frac_le)
    also have "\<dots> = pow2 (bp - bq + 1)"
      by (simp add: pow2_diff[symmetric] algebra_simps)
    finally show ?thesis .
  qed
  have lo: "pow2 (bp - bq - 1) \<le> x"
  proof -
    have "pow2 (bp - bq - 1) = pow2 (bp - 1) / pow2 bq"
      by (simp add: pow2_diff[symmetric] algebra_simps)
    also have "\<dots> \<le> of_int p / pow2 bq"
      using rp(1) pow2_pos[of bq] by (simp add: divide_right_mono)
    also have "\<dots> \<le> of_int p / of_int q"
      using rq(2) qpos p by (simp add: frac_le)
    finally show ?thesis unfolding x .
  qed
  have e: "binaryExponent x = (if pow2 (bp - bq) \<le> x then bp - bq else bp - bq - 1)"
    by (simp add: binaryExponent_def pq bp_def bq_def Let_def)
  show ?thesis
    unfolding e using up lo by auto
qed

lemma binaryExponent_ge:
  assumes "pow2 k \<le> x"
  shows "k \<le> binaryExponent x"
proof -
  have "0 < x" using assms pow2_pos[of k] by simp
  from binaryExponent_bounds[OF this] assms
  have "pow2 k < pow2 (binaryExponent x + 1)" by simp
  then show ?thesis using pow2_less by fastforce
qed

lemma binaryExponent_less:
  assumes "0 < x" "x < pow2 k"
  shows "binaryExponent x < k"
proof -
  from binaryExponent_bounds[OF assms(1)] assms(2)
  have "pow2 (binaryExponent x) < pow2 k" by simp
  then show ?thesis by (rule pow2_less)
qed

lemma binaryExponent_0: "binaryExponent 0 = - 2"
  by code_simp

lemma roundTiesToEven_error: "\<bar>of_int (roundTiesToEven z) - z\<bar> \<le> 1 / 2"
proof -
  have "of_int \<lfloor>z\<rfloor> \<le> z" "z < of_int \<lfloor>z\<rfloor> + 1" by linarith+
  then show ?thesis
    by (auto simp: roundTiesToEven_def Let_def)
qed

lemma roundTiesToEven_nonneg: "0 \<le> z \<Longrightarrow> 0 \<le> roundTiesToEven z"
  by (auto simp: roundTiesToEven_def Let_def)

lemma roundTiesToEven_nonpos: "z \<le> 0 \<Longrightarrow> roundTiesToEven z \<le> 0"
proof -
  assume z: "z \<le> 0"
  then have f: "\<lfloor>z\<rfloor> \<le> 0" by (simp add: floor_le_zero)
  show ?thesis
  proof (cases "\<lfloor>z\<rfloor> = 0")
    case True
    then have "z = 0" using z by (metis floor_correct of_int_0 order_antisym)
    then show ?thesis by (simp add: roundTiesToEven_def)
  next
    case False
    then have "\<lfloor>z\<rfloor> + 1 \<le> 0" using f by linarith
    then show ?thesis using f by (auto simp: roundTiesToEven_def Let_def)
  qed
qed

lemma roundTiesToEven_0: "roundTiesToEven 0 = 0"
  by (simp add: roundTiesToEven_def)

text \<open>The nearest binary64 value keeps the sign, and in the normal range it is within half a unit in the last place.\<close>

lemma nearestBinary64_0: "nearestBinary64 0 = 0"
  by (simp add: nearestBinary64_def Let_def roundTiesToEven_0)

lemma nearestBinary64_nonneg: "0 \<le> x \<Longrightarrow> 0 \<le> nearestBinary64 x"
  using pow2_pos roundTiesToEven_nonneg
  by (simp add: nearestBinary64_def Let_def zero_le_mult_iff zero_le_divide_iff less_imp_le)

lemma nearestBinary64_nonpos: "x \<le> 0 \<Longrightarrow> nearestBinary64 x \<le> 0"
proof -
  assume x: "x \<le> 0"
  define u where "u = pow2 (max (binaryExponent \<bar>x\<bar>) (- 1022) - 52)"
  have u: "0 < u" unfolding u_def by (rule pow2_pos)
  have "x / u \<le> 0" using x u by (simp add: divide_le_0_iff)
  then have "roundTiesToEven (x / u) \<le> 0" by (rule roundTiesToEven_nonpos)
  then have "(of_int (roundTiesToEven (x / u)) :: rat) \<le> 0" by simp
  then have "of_int (roundTiesToEven (x / u)) * u \<le> 0"
    using u by (simp add: mult_le_0_iff)
  then show ?thesis by (simp add: nearestBinary64_def Let_def u_def)
qed

lemma nearestBinary64_error:
  assumes "pow2 (- 1022) \<le> \<bar>x\<bar>"
  shows "\<bar>nearestBinary64 x - x\<bar> \<le> \<bar>x\<bar> / 2 ^ 53"
proof -
  define e where "e = binaryExponent \<bar>x\<bar>"
  define u where "u = pow2 (e - 52)"
  have e: "- 1022 \<le> e" unfolding e_def using assms by (rule binaryExponent_ge)
  have xp: "0 < \<bar>x\<bar>" using assms pow2_pos[of "- 1022"] by linarith
  have lo: "pow2 e \<le> \<bar>x\<bar>" unfolding e_def using binaryExponent_bounds[OF xp] by simp
  have u: "0 < u" unfolding u_def by (rule pow2_pos)
  have n: "nearestBinary64 x = of_int (roundTiesToEven (x / u)) * u"
    using e by (simp add: nearestBinary64_def Let_def e_def[symmetric] u_def max_def)
  have "nearestBinary64 x - x = (of_int (roundTiesToEven (x / u)) - x / u) * u"
    unfolding n using u by (simp add: algebra_simps)
  then have "\<bar>nearestBinary64 x - x\<bar> = \<bar>of_int (roundTiesToEven (x / u)) - x / u\<bar> * u"
    using u by (simp add: abs_mult)
  also have "\<dots> \<le> (1 / 2) * u"
    using roundTiesToEven_error[of "x / u"] u by (simp add: mult_right_mono)
  also have "\<dots> = pow2 e / 2 ^ 53"
  proof -
    have "u = pow2 e / pow2 52" unfolding u_def by (rule pow2_diff)
    then show ?thesis by (simp add: pow2_def)
  qed
  also have "\<dots> \<le> \<bar>x\<bar> / 2 ^ 53"
    using lo by (simp add: divide_right_mono)
  finally show ?thesis .
qed


lemma binary64_finite:
  assumes "\<bar>x\<bar> \<le> 2 ^ 1000"
  shows "binary64 x = Finite (nearestBinary64 x)"
proof -
  define y where "y = nearestBinary64 x"
  have "binaryExponent \<bar>y\<bar> < 1024"
  proof (cases "y = 0")
    case True
    then show ?thesis by (simp add: binaryExponent_0)
  next
    case False
    then have yp: "0 < \<bar>y\<bar>" by simp
    define e where "e = max (binaryExponent \<bar>x\<bar>) (- 1022)"
    define u where "u = pow2 (e - 52)"
    have u: "0 < u" unfolding u_def by (rule pow2_pos)
    have n: "y = of_int (roundTiesToEven (x / u)) * u"
      by (simp add: y_def nearestBinary64_def Let_def e_def u_def)
    have "y - x = (of_int (roundTiesToEven (x / u)) - x / u) * u"
      unfolding n using u by (simp add: algebra_simps)
    then have "\<bar>y - x\<bar> = \<bar>of_int (roundTiesToEven (x / u)) - x / u\<bar> * u"
      using u by (simp add: abs_mult)
    also have "\<dots> \<le> (1 / 2) * u"
      using roundTiesToEven_error[of "x / u"] u by (simp add: mult_right_mono)
    finally have err: "\<bar>y - x\<bar> \<le> u / 2" by simp
    have "e \<le> 1000"
    proof (cases "x = 0")
      case True
      then show ?thesis by (simp add: e_def binaryExponent_0)
    next
      case False
      then have "0 < \<bar>x\<bar>" by simp
      moreover have "\<bar>x\<bar> < pow2 1001" using assms by (simp add: pow2_def)
      ultimately have "binaryExponent \<bar>x\<bar> < 1001" by (rule binaryExponent_less)
      then show ?thesis by (simp add: e_def)
    qed
    then have "u \<le> pow2 948" unfolding u_def by (intro pow2_mono) simp
    then have "u \<le> 2 ^ 948" by (simp add: pow2_def)
    then have "\<bar>y\<bar> \<le> 2 ^ 1000 + 2 ^ 948" using err assms by linarith
    also have "\<dots> < (2::rat) ^ 1024"
    proof -
      have "(2::rat) ^ 948 \<le> 2 ^ 1000" by (rule power_increasing) simp_all
      moreover have "(2::rat) * 2 ^ 1000 = 2 ^ 1001" by simp
      moreover have "(2::rat) ^ 1001 < 2 ^ 1024" by (rule power_strict_increasing) simp_all
      ultimately show ?thesis by linarith
    qed
    finally have "\<bar>y\<bar> < pow2 1024" by (simp add: pow2_def)
    with yp show ?thesis by (rule binaryExponent_less)
  qed
  then show ?thesis
    by (simp add: binary64_def Let_def y_def[symmetric])
qed


lemma binary64_0: "binary64 0 = Finite 0"
  by (simp add: binary64_finite nearestBinary64_0)

text \<open>
  Where no underflow or overflow is near, the rounded value is finite, has the sign of the
  exact one and a relative error of at most \<open>2^-53\<close>.
\<close>

lemma binary64_near:
  assumes "1 / 2 ^ 64 \<le> \<bar>x\<bar>" "\<bar>x\<bar> \<le> 2 ^ 64"
  shows "\<exists>y. binary64 x = Finite y \<and> \<bar>y - x\<bar> \<le> \<bar>x\<bar> / 2 ^ 53 \<and>
             (0 \<le> x \<longrightarrow> 0 \<le> y) \<and> (x \<le> 0 \<longrightarrow> y \<le> 0)"
proof -
  have "pow2 (- 1022) \<le> pow2 (- 64)" by (rule pow2_mono) simp
  also have "\<dots> = 1 / 2 ^ 64" by (simp add: pow2_def)
  finally have lo: "pow2 (- 1022) \<le> \<bar>x\<bar>" using assms(1) by simp
  have "(2::rat) ^ 64 \<le> 2 ^ 1000" by (rule power_increasing) simp_all
  then have hi: "\<bar>x\<bar> \<le> 2 ^ 1000" using assms(2) by simp
  show ?thesis
    using binary64_finite[OF hi] nearestBinary64_error[OF lo]
      nearestBinary64_nonneg[of x] nearestBinary64_nonpos[of x]
    by simp
qed

text \<open>The same for a value that is 0 or not near underflow or overflow.\<close>

lemma binary64_near0:
  assumes "x = 0 \<or> 1 / 2 ^ 64 \<le> \<bar>x\<bar>" "\<bar>x\<bar> \<le> 2 ^ 64"
  shows "\<exists>y. binary64 x = Finite y \<and> \<bar>y - x\<bar> \<le> \<bar>x\<bar> / 2 ^ 53 \<and>
             (0 \<le> x \<longrightarrow> 0 \<le> y) \<and> (x \<le> 0 \<longrightarrow> y \<le> 0)"
proof (cases "x = 0")
  case True
  then show ?thesis by (simp add: binary64_0)
next
  case False
  then show ?thesis using assms binary64_near by simp
qed

section \<open>Ratios and percentages of counters\<close>

lemma counterValue_eq: "counterValue n = Finite (of_nat (min n 9007199254740992))"
proof -
  have "min (int n) 9007199254740992 = int (min n 9007199254740992)" by simp
  then show ?thesis unfolding counterValue_def by (simp only: of_int_of_nat_eq)
qed

lemma near_bounds:
  fixes x y :: rat
  assumes "\<bar>y - x\<bar> \<le> \<bar>x\<bar> / 2 ^ 53" "0 \<le> x"
  shows "x - x / 9007199254740992 \<le> y" "y \<le> x + x / 9007199254740992"
proof -
  have e: "(2::rat) ^ 53 = 9007199254740992" by simp
  from assms have "\<bar>y - x\<bar> \<le> x / 9007199254740992"
    by (simp only: abs_of_nonneg e)
  then show "x - x / 9007199254740992 \<le> y" "y \<le> x + x / 9007199254740992"
    by linarith+
qed

text \<open>The quotient of two counters: 0 or at least \<open>2^-53\<close>, at most 1, and rounded.\<close>

lemma ratio_near:
  fixes c t :: nat
  assumes "c \<le> t" "0 < t"
  defines "x \<equiv> (of_nat (min c 9007199254740992) / of_nat (min t 9007199254740992) :: rat)"
  shows "\<exists>y. numDiv (counterValue c) (counterValue t) = Finite y \<and>
           \<bar>y - x\<bar> \<le> x / 2 ^ 53 \<and> 0 \<le> y \<and> 0 \<le> x \<and> x \<le> 1 \<and>
           (x = 0 \<or> 1 / 2 ^ 53 \<le> x)"
proof -
  define sc where "sc = min c 9007199254740992"
  define st where "st = min t 9007199254740992"
  have s: "sc \<le> st" "0 < st" "st \<le> 9007199254740992"
    using assms(1,2) by (auto simp: sc_def st_def)
  have x: "x = of_nat sc / of_nat st" by (simp add: x_def sc_def st_def)
  have stp: "(0::rat) < of_nat st" using s(2) by simp
  have x0: "0 \<le> x" unfolding x by simp
  have x1: "x \<le> 1" unfolding x using s(1) stp by simp
  have lo: "x = 0 \<or> 1 / 2 ^ 53 \<le> x"
  proof (cases "sc = 0")
    case True
    then show ?thesis by (simp add: x)
  next
    case False
    then have "(1::rat) \<le> of_nat sc" by (simp add: Suc_leI)
    moreover have "(of_nat st :: rat) \<le> 9007199254740992"
      using s(3) by (metis of_nat_le_iff of_nat_numeral)
    ultimately have "(1::rat) / 9007199254740992 \<le> of_nat sc / of_nat st"
      using stp by (intro frac_le) simp_all
    then show ?thesis by (simp add: x)
  qed
  have "numDiv (Finite (of_nat sc)) (Finite (of_nat st)) = binary64 (of_nat sc / of_nat st)"
    using stp by simp
  then have d: "numDiv (counterValue c) (counterValue t) = binary64 x"
    by (simp only: counterValue_eq sc_def st_def x_def)
  have "x = 0 \<or> 1 / 2 ^ 64 \<le> \<bar>x\<bar>" using lo x0 by auto
  moreover have "\<bar>x\<bar> \<le> 2 ^ 64" using x0 x1 by simp
  ultimately obtain y where y: "binary64 x = Finite y" "\<bar>y - x\<bar> \<le> \<bar>x\<bar> / 2 ^ 53"
      "0 \<le> x \<longrightarrow> 0 \<le> y"
    using binary64_near0[of x] by blast
  show ?thesis
    using d y x0 x1 lo by auto
qed

text \<open>
  A percentage of counters with \<open>correct \<le> total\<close> and \<open>0 < total\<close> is a decimal without sign
  from 0.00 to 100.00, the quotient in hundredths of a percent up to the rounding.
\<close>

lemma percentageOf_shape:
  fixes c t :: nat
  assumes "c \<le> t" "0 < t"
  shows "\<exists>n. percentageOf c t = FixedDecimal False n \<and> n \<le> 10000 \<and>
     \<bar>of_nat n - 10000 * (of_nat (min c 9007199254740992) /
                            of_nat (min t 9007199254740992))\<bar> \<le> (1 / 2 + 1 / 10 ^ 10 :: rat)"
proof -
  define x :: rat where "x = of_nat (min c 9007199254740992) / of_nat (min t 9007199254740992)"
  obtain y where y: "numDiv (counterValue c) (counterValue t) = Finite y"
      "\<bar>y - x\<bar> \<le> x / 2 ^ 53" "0 \<le> y" "0 \<le> x" "x \<le> 1" "x = 0 \<or> 1 / 2 ^ 53 \<le> x"
    using ratio_near[OF assms] unfolding x_def by blast
  have "\<bar>y - x\<bar> \<le> \<bar>x\<bar> / 2 ^ 53" using y(2,4) by simp
  note yb = near_bounds[OF this y(4)]
  define p where "p = y * 100"
  have p0: "0 \<le> p" using y(3) by (simp add: p_def)
  have plo: "p = 0 \<or> 1 / 2 ^ 64 \<le> \<bar>p\<bar>"
  proof (cases "x = 0")
    case True
    then have "y = 0" using y(2) by simp
    then show ?thesis by (simp add: p_def)
  next
    case False
    then have "1 / 9007199254740992 \<le> x" using y(6) by simp
    then have "1 / 18446744073709551616 \<le> p" using yb(1) unfolding p_def by linarith
    then have "1 / 2 ^ 64 \<le> p" by simp
    then show ?thesis using p0 by simp
  qed
  have phi: "p \<le> 100 + 100 / 9007199254740992" using yb(2) y(5) unfolding p_def by linarith
  then have "\<bar>p\<bar> \<le> 2 ^ 64" using p0 by simp
  then obtain v where v: "binary64 p = Finite v" "\<bar>v - p\<bar> \<le> \<bar>p\<bar> / 2 ^ 53" "0 \<le> v"
    using binary64_near0[OF plo] p0 by blast
  note vb = near_bounds[OF v(2) p0]
  have "numMul (Finite y) (Finite 100) = Finite v"
    using v(1) by (simp add: p_def)
  then have pc: "percentageOf c t = toFixed2 (Finite v)"
    by (simp only: percentageOf_def y(1))
  have "v \<le> 100 + 1 / 1000000000000" using vb(2) phi p0 by linarith
  then have vhi: "v \<le> 100 + 1 / 10 ^ 12" by simp
  then have small: "\<not> 10 ^ 21 \<le> \<bar>v\<bar>" using v(3) by simp
  define z where "z = v * 100 + 1 / 2"
  define n where "n = nat \<lfloor>z\<rfloor>"
  have av: "\<bar>v\<bar> = v" using v(3) by simp
  have tf: "toFixed2 (Finite v) = FixedDecimal False n"
    using small v(3) by (simp add: n_def z_def av)
  have z0: "0 \<le> z" using v(3) by (simp add: z_def)
  then have fz: "0 \<le> \<lfloor>z\<rfloor>" by simp
  have nz: "(of_nat n :: rat) = of_int \<lfloor>z\<rfloor>"
    using fz by (simp add: n_def)
  have fl: "of_int \<lfloor>z\<rfloor> \<le> z" "z < of_int \<lfloor>z\<rfloor> + 1" by linarith+
  have n1: "\<bar>of_nat n - v * 100\<bar> \<le> (1 / 2 :: rat)"
    using fl unfolding nz z_def by linarith
  have "z < 10001" using vhi unfolding z_def by simp
  then have "\<lfloor>z\<rfloor> < 10001" by (simp add: floor_less_iff)
  then have n2: "n \<le> 10000" using fz unfolding n_def by linarith
  have "\<bar>v * 100 - 10000 * x\<bar> \<le> 1 / 10000000000"
    using vb yb phi p0 y(4,5) unfolding p_def by linarith
  then have "\<bar>v * 100 - 10000 * x\<bar> \<le> 1 / 10 ^ 10" by simp
  then have "\<bar>of_nat n - 10000 * x\<bar> \<le> 1 / 2 + 1 / 10 ^ 10"
    using n1 by linarith
  then show ?thesis
    using pc tf n2 unfolding x_def by simp
qed

text \<open>
  For a total below \<open>2^48\<close>, the comparison of the rounded quotient with the binary64 value
  of a bound \<open>k/10\<close> is the comparison of the exact quotient with \<open>k/10\<close>.
\<close>

lemma ratioBelow_exact:
  fixes c t k :: nat
  assumes "c \<le> t" "0 < t" "t < 2 ^ 48" "0 < k" "k \<le> 10"
  shows "ratioBelow \<lparr>correct = c, total' = t\<rparr> (of_nat k / 10) \<longleftrightarrow> 10 * c < k * t"
proof -
  define x :: rat where "x = of_nat c / of_nat t"
  define r :: rat where "r = of_nat k / 10"
  define g :: rat where "g = 1 / (10 * of_nat t)"
  have tp: "(0::rat) < of_nat t" using assms(2) by simp
  have tK: "t < 9007199254740992" using assms(3) by simp
  then have m: "min c 9007199254740992 = c" "min t 9007199254740992 = t"
    using assms(1) by simp_all
  obtain y where y: "numDiv (counterValue c) (counterValue t) = Finite y"
      "\<bar>y - x\<bar> \<le> x / 2 ^ 53" "0 \<le> x" "x \<le> 1"
    using ratio_near[OF assms(1,2)] unfolding m x_def by blast
  have "\<bar>y - x\<bar> \<le> \<bar>x\<bar> / 2 ^ 53" using y(2,3) by simp
  note yb = near_bounds[OF this y(3)]
  have r0: "1 / 10 \<le> r" "r \<le> 1"
  proof -
    have "(1::rat) \<le> of_nat k" using assms(4) by (simp add: Suc_leI)
    then show "1 / 10 \<le> r" by (simp add: r_def)
    have "(of_nat k :: rat) \<le> 10" using assms(5) by (metis of_nat_le_iff of_nat_numeral)
    then show "r \<le> 1" by (simp add: r_def)
  qed
  have "1 / 2 ^ 64 \<le> \<bar>r\<bar>" "\<bar>r\<bar> \<le> 2 ^ 64" using r0 by simp_all
  then obtain rr where rr: "binary64 r = Finite rr" "\<bar>rr - r\<bar> \<le> \<bar>r\<bar> / 2 ^ 53"
    using binary64_near[of r] by blast
  have rp: "0 \<le> r" using r0 by simp
  note rb = near_bounds[OF rr(2) rp]
  have rb': "ratioBelow \<lparr>correct = c, total' = t\<rparr> (of_nat k / 10) \<longleftrightarrow> y < rr"
    by (simp add: ratioBelow_def y(1) rr(1) r_def[symmetric])
  have "(of_nat t :: rat) < 2 ^ 48" using assms(3) by (metis of_nat_less_iff of_nat_numeral of_nat_power)
  then have "1 / (10 * 2 ^ 48) < g"
    unfolding g_def using tp by (intro divide_strict_left_mono) simp_all
  then have g: "1 / 2814749767106560 < g" by simp
  consider (lt) "10 * c < k * t" | (eq) "10 * c = k * t" | (gt) "k * t < 10 * c"
    by linarith
  then show ?thesis
  proof cases
    case lt
    then have "10 * c + 1 \<le> k * t" by simp
    then have "(of_nat (10 * c + 1) :: rat) \<le> of_nat (k * t)" by (simp only: of_nat_le_iff)
    then have "10 * of_nat c + 1 \<le> (of_nat k * of_nat t :: rat)" by simp
    then have "(10 * of_nat c + 1 :: rat) / (10 * of_nat t) \<le> (of_nat k * of_nat t) / (10 * of_nat t)"
      using tp by (intro divide_right_mono) simp_all
    moreover have "x + g = (10 * of_nat c + 1 :: rat) / (10 * of_nat t)"
      unfolding g_def x_def using tp by (simp add: field_simps)
    moreover have "r = (of_nat k * of_nat t :: rat) / (10 * of_nat t)"
      unfolding r_def using tp by simp
    ultimately have "x + g \<le> r" by simp
    then have "y < rr" using yb rb g y(4) r0 by linarith
    then show ?thesis using lt rb' by simp
  next
    case eq
    then have "(of_nat (10 * c) :: rat) = of_nat (k * t)" by simp
    then have "10 * of_nat c = (of_nat k * of_nat t :: rat)" by simp
    then have "x = r"
      unfolding x_def r_def using tp by (simp add: field_simps)
    have "numDiv (counterValue c) (counterValue t) = binary64 x"
      using tp by (simp add: counterValue_eq m x_def)
    then have "y = rr" using y(1) rr(1) \<open>x = r\<close> by simp
    then show ?thesis using eq rb' by simp
  next
    case gt
    then have "k * t + 1 \<le> 10 * c" by simp
    then have "(of_nat (k * t + 1) :: rat) \<le> of_nat (10 * c)" by (simp only: of_nat_le_iff)
    then have "of_nat k * of_nat t + 1 \<le> (10 * of_nat c :: rat)" by simp
    then have "(of_nat k * of_nat t + 1) / (10 * of_nat t) \<le> (10 * of_nat c :: rat) / (10 * of_nat t)"
      using tp by (intro divide_right_mono) simp_all
    moreover have "r + g = (of_nat k * of_nat t + 1) / (10 * of_nat t)"
      unfolding g_def r_def using tp by (simp add: field_simps)
    moreover have "x = (10 * of_nat c :: rat) / (10 * of_nat t)"
      unfolding x_def by simp
    ultimately have "r + g \<le> x" by simp
    then have "rr < y" using yb rb g y(4) r0 by linarith
    then show ?thesis using gt rb' by simp
  qed
qed

text \<open>
  The comparator of the sort on two decimals without sign of at most 10000 hundredths: the
  difference of their numbers is positive exactly when the first has more hundredths.
\<close>

lemma toNumber_decimal:
  fixes n :: nat
  assumes "n \<le> 10000"
  shows "\<exists>k. toNumber (FixedDecimal False n) = Finite k \<and>
           of_nat n / 100 - 1 / 10 ^ 12 \<le> k \<and> k \<le> of_nat n / 100 + 1 / 10 ^ 12"
proof -
  define x :: rat where "x = of_nat n / 100"
  have x0: "0 \<le> x" by (simp add: x_def)
  have "(of_nat n :: rat) \<le> 10000" using assms by (metis of_nat_le_iff of_nat_numeral)
  then have x1: "x \<le> 100" by (simp add: x_def)
  have lo: "x = 0 \<or> 1 / 2 ^ 64 \<le> \<bar>x\<bar>"
  proof (cases "n = 0")
    case True
    then show ?thesis by (simp add: x_def)
  next
    case False
    then have "(1::rat) \<le> of_nat n" by (simp add: Suc_leI)
    then have "1 / 100 \<le> x" by (simp add: x_def)
    then show ?thesis by simp
  qed
  have "\<bar>x\<bar> \<le> 2 ^ 64" using x0 x1 by simp
  from binary64_near0[OF lo this] obtain k where k: "binary64 x = Finite k"
      "\<bar>k - x\<bar> \<le> \<bar>x\<bar> / 2 ^ 53" by blast
  note kb = near_bounds[OF k(2) x0]
  have "x - 1 / 1000000000000 \<le> k" "k \<le> x + 1 / 1000000000000"
    using kb x0 x1 by linarith+
  then have "x - 1 / 10 ^ 12 \<le> k \<and> k \<le> x + 1 / 10 ^ 12" by simp
  moreover have "toNumber (FixedDecimal False n) = Finite k"
    using k(1) by (simp add: x_def)
  ultimately show ?thesis unfolding x_def by blast
qed

lemma compare_decimals:
  fixes n m :: nat
  assumes "n \<le> 10000" "m \<le> 10000"
  shows "numLess (Finite 0)
           (numSub (toNumber (FixedDecimal False n)) (toNumber (FixedDecimal False m)))
         \<longleftrightarrow> m < n"
proof -
  obtain kn where kn: "toNumber (FixedDecimal False n) = Finite kn"
      "of_nat n / 100 - 1 / 10 ^ 12 \<le> kn" "kn \<le> of_nat n / 100 + 1 / 10 ^ 12"
    using toNumber_decimal[OF assms(1)] by blast
  obtain km where km: "toNumber (FixedDecimal False m) = Finite km"
      "of_nat m / 100 - 1 / 10 ^ 12 \<le> km" "km \<le> of_nat m / 100 + 1 / 10 ^ 12"
    using toNumber_decimal[OF assms(2)] by blast
  define d where "d = kn - km"
  have s: "numSub (toNumber (FixedDecimal False n)) (toNumber (FixedDecimal False m)) = binary64 d"
    unfolding kn(1) km(1) numSub_def d_def by simp
  have N: "(of_nat n :: rat) \<le> 10000" "(of_nat m :: rat) \<le> 10000"
    using assms by (metis of_nat_le_iff of_nat_numeral)+
  have dhi: "\<bar>d\<bar> \<le> 2 ^ 64"
  proof -
    have "\<bar>d\<bar> \<le> 101" using kn(2,3) km(2,3) N unfolding d_def by simp
    then show ?thesis by simp
  qed
  consider (gt) "m < n" | (eq) "m = n" | (lt) "n < m" by linarith
  then show ?thesis
  proof cases
    case gt
    then have "m + 1 \<le> n" by simp
    then have "(of_nat (m + 1) :: rat) \<le> of_nat n" by (simp only: of_nat_le_iff)
    then have "(of_nat m :: rat) + 1 \<le> of_nat n" by simp
    then have dl: "1 / 200 \<le> d" using kn(2) km(3) unfolding d_def by simp
    then have "1 / 2 ^ 64 \<le> \<bar>d\<bar>" by simp
    from binary64_near[OF this dhi] obtain z where z: "binary64 d = Finite z"
        "\<bar>z - d\<bar> \<le> \<bar>d\<bar> / 2 ^ 53" by blast
    have d0: "0 \<le> d" using dl by simp
    note zb = near_bounds[OF z(2) d0]
    have "0 < z" using zb dl by linarith
    then show ?thesis unfolding s z(1) using gt by simp
  next
    case eq
    then have "kn = km" using kn(1) km(1) by simp
    then have "d = 0" by (simp add: d_def)
    then show ?thesis unfolding s using eq by (simp add: binary64_0)
  next
    case lt
    then have "n + 1 \<le> m" by simp
    then have "(of_nat (n + 1) :: rat) \<le> of_nat m" by (simp only: of_nat_le_iff)
    then have "(of_nat n :: rat) + 1 \<le> of_nat m" by simp
    then have dl: "d \<le> - (1 / 200)" using kn(3) km(2) unfolding d_def by simp
    then have "1 / 2 ^ 64 \<le> \<bar>d\<bar>" by simp
    from binary64_near[OF this dhi] obtain z where z: "binary64 d = Finite z"
        "d \<le> 0 \<longrightarrow> z \<le> 0" by blast
    have "z \<le> 0" using z(2) dl by simp
    then show ?thesis unfolding s z(1) using lt by simp
  qed
qed

section \<open>Splitting, joining and trimming\<close>

lemma split_not_Nil: "sep \<noteq> [] \<Longrightarrow> split sep s \<noteq> []"
  by (induction sep s rule: split.induct) (auto split: list.splits)

lemma join_Cons: "ps \<noteq> [] \<Longrightarrow> join sep (p # ps) = p @ sep @ join sep ps"
  by (cases ps) auto

text \<open>Joining the pieces with the separator gives the string back.\<close>

lemma join_split: "sep \<noteq> [] \<Longrightarrow> join sep (split sep s) = s"
proof (induction sep s rule: split.induct)
  case (1 sep)
  then show ?case by simp
next
  case (2 sep c cs)
  show ?case
  proof (cases "prefix sep (c # cs)")
    case True
    then obtain r where r: "c # cs = sep @ r" by (auto simp: prefix_def)
    have s: "split sep (c # cs) = [] # split sep (drop (length sep) (c # cs))"
      using True 2(3) by simp
    have d: "drop (length sep) (c # cs) = r" using r by simp
    have ih: "join sep (split sep r) = r"
      using 2(1)[OF 2(3) True] 2(3) d by simp
    have ne: "split sep r \<noteq> []"
      using 2(3) by (rule split_not_Nil)
    have "join sep (split sep (c # cs)) = [] @ sep @ join sep (split sep r)"
      unfolding s d using ne by (rule join_Cons)
    then show ?thesis using ih r by simp
  next
    case False
    have ih: "join sep (split sep cs) = cs" using 2 False by simp
    obtain p ps where ps: "split sep cs = p # ps"
      using split_not_Nil[OF 2(3), of cs] by (cases "split sep cs") auto
    show ?thesis using False 2(3) ih ps
      by (cases ps) auto
  qed
qed

text \<open>A piece of a split at a single character does not hold that character.\<close>

lemma split_char_free: "p \<in> set (split [c] s) \<Longrightarrow> c \<notin> set p"
proof (induction s arbitrary: p)
  case Nil
  then show ?case by simp
next
  case (Cons a s)
  show ?case
  proof (cases "a = c")
    case True
    then show ?thesis using Cons by auto
  next
    case False
    obtain q qs where qs: "split [c] s = q # qs"
      using split_not_Nil[of "[c]" s] by (cases "split [c] s") auto
    then show ?thesis using False Cons by auto
  qed
qed

lemma split_char_takeWhile:
  "split [c] s = takeWhile (\<lambda>x. x \<noteq> c) s #
      (case dropWhile (\<lambda>x. x \<noteq> c) s of [] \<Rightarrow> [] | _ # r \<Rightarrow> split [c] r)"
proof (induction s)
  case Nil
  then show ?case by simp
next
  case (Cons a s)
  then show ?case by (cases "a = c") auto
qed

lemma trim_Nil_iff: "trim s = [] \<longleftrightarrow> (\<forall>c \<in> set s. isWhiteSpace c)"
proof
  assume "trim s = []"
  then have "dropWhile isWhiteSpace (rev (dropWhile isWhiteSpace s)) = []"
    by (simp add: trim_def)
  then have "\<forall>c \<in> set (dropWhile isWhiteSpace s). isWhiteSpace c"
    by (simp add: dropWhile_eq_Nil_conv)
  then have "dropWhile isWhiteSpace s = []"
    by (metis hd_dropWhile hd_in_set)
  then show "\<forall>c \<in> set s. isWhiteSpace c"
    by (simp add: dropWhile_eq_Nil_conv)
next
  assume "\<forall>c \<in> set s. isWhiteSpace c"
  then have "dropWhile isWhiteSpace s = []"
    by (simp add: dropWhile_eq_Nil_conv)
  then show "trim s = []"
    unfolding trim_def by (simp only: rev.simps dropWhile.simps)
qed

lemma set_join: "set (join sep ps) \<subseteq> set sep \<union> \<Union> (set ` set ps)"
  by (induction sep ps rule: join.induct) auto

section \<open>Concept tagging\<close>

lemma foldl_setAdd_set:
  "set (foldl (\<lambda>cs w. if w \<in> T then setAdd w cs else cs) acc ws) = set acc \<union> (set ws \<inter> T)"
  by (induction ws arbitrary: acc) (auto simp: setAdd_def)

lemma foldl_setAdd_distinct:
  "distinct acc \<Longrightarrow> distinct (foldl (\<lambda>cs w. if w \<in> T then setAdd w cs else cs) acc ws)"
  by (induction ws arbitrary: acc) (auto simp: setAdd_def)

lemma extractConcepts_set:
  "set (extractConcepts q) = set (split '' '' (toLowerCase q)) \<inter> set technicalTerms"
  by (simp add: extractConcepts_def foldl_setAdd_set)

lemma extractConcepts_distinct: "distinct (extractConcepts q)"
  by (simp add: extractConcepts_def foldl_setAdd_distinct)

lemma extractConcepts_vocabulary: "c \<in> set (extractConcepts q) \<Longrightarrow> c \<in> set technicalTerms"
  by (simp add: extractConcepts_set)

text \<open>
  Claim C4, as the code has it. \<open>extractConcepts\<close> lower-cases the question and splits it at
  the single space character only: the tokens are the pieces between spaces (joined with
  spaces they give the lower-cased question back, and none holds a space). The result has
  no repetition and holds exactly the vocabulary terms that are such a token, so a
  vocabulary word never matches as a part of a longer token. A tab or a newline does not end
  a token.
\<close>

theorem extractConcepts_space_tokens:
  "join '' '' (split '' '' (toLowerCase question)) = toLowerCase question \<and>
   (\<forall>word \<in> set (split '' '' (toLowerCase question)). CHR '' '' \<notin> set word) \<and>
   set (extractConcepts question) =
     set (split '' '' (toLowerCase question)) \<inter> set technicalTerms \<and>
   distinct (extractConcepts question)"
  using split_char_free[of _ "CHR '' ''" "toLowerCase question"]
  by (simp add: join_split extractConcepts_set extractConcepts_distinct)

theorem extractConcepts_space_tokens_witness:
  "set (extractConcepts tabbedQuestion) =
     set (split '' '' (toLowerCase tabbedQuestion)) \<inter> set technicalTerms \<and>
   extractConcepts tabbedQuestion = [''array'', ''loop'']"
proof (rule conjI)
  show "set (extractConcepts tabbedQuestion) =
     set (split '' '' (toLowerCase tabbedQuestion)) \<inter> set technicalTerms"
    by (rule extractConcepts_space_tokens
          [of tabbedQuestion, THEN conjunct2, THEN conjunct2, THEN conjunct1])
  show "extractConcepts tabbedQuestion = [''array'', ''loop'']"
    by code_simp
qed

text \<open>
  Claim C4 as stated fails: in \<open>tabbedQuestion\<close> the word "recursion" follows a tab. It is
  a whitespace-separated token of the vocabulary, and \<open>extractConcepts\<close> does not return it.
\<close>

theorem tagConcepts_tab_counterexample:
  "''recursion'' \<in> tagConcepts tabbedQuestion \<and>
   ''recursion'' \<notin> set (extractConcepts tabbedQuestion)"
  by code_simp

section \<open>Question extraction\<close>

lemma blockLines_not_Nil:
  assumes "trim block \<noteq> []"
  shows "blockLines block \<noteq> []"
proof
  assume e: "blockLines block = []"
  have "\<forall>l \<in> set (split LF block). trim l = []"
    using e by (auto simp: blockLines_def filter_empty_conv)
  then have ws: "\<forall>l \<in> set (split LF block). \<forall>c \<in> set l. isWhiteSpace c"
    by (simp add: trim_Nil_iff)
  have "set block \<subseteq> set LF \<union> \<Union> (set ` set (split LF block))"
    using set_join[of LF "split LF block"] by (simp add: join_split LF_def)
  then have "\<forall>c \<in> set block. isWhiteSpace c"
    using ws by (auto simp: LF_def isWhiteSpace_def)
  then show False using assms by (simp add: trim_Nil_iff)
qed

lemma split_colon_Correct:
  assumes "prefix ''Correct:'' line"
  shows "split '':'' line =
     ''Correct'' # takeWhile (\<lambda>c. c \<noteq> CHR '':'') (drop (length ''Correct:'') line) #
       (case dropWhile (\<lambda>c. c \<noteq> CHR '':'') (drop (length ''Correct:'') line) of
          [] \<Rightarrow> [] | _ # r \<Rightarrow> split '':'' r)"
proof -
  obtain rest where l: "line = ''Correct:'' @ rest"
    using assms by (auto simp: prefix_def)
  have "split '':'' line = ''Correct'' # split '':'' rest"
    unfolding l by simp
  also have "split '':'' rest = takeWhile (\<lambda>c. c \<noteq> CHR '':'') rest #
       (case dropWhile (\<lambda>c. c \<noteq> CHR '':'') rest of [] \<Rightarrow> [] | _ # r \<Rightarrow> split '':'' r)"
    by (rule split_char_takeWhile)
  finally show ?thesis by (simp add: l)
qed

text \<open>What \<open>parseMcqBlock\<close> returns for a segment that is not blank.\<close>

lemma parseMcqBlock_eq:
  assumes "trim block \<noteq> []"
  shows "parseMcqBlock block =
     Inr (McqQuestion (trim (hd (blockLines block)))
            (map trim (take 4 (drop 1 (blockLines block))))
            (map_option
               (\<lambda>line. trim (takeWhile (\<lambda>c. c \<noteq> CHR '':'') (drop (length ''Correct:'') line)))
               (find (prefix ''Correct:'') (blockLines block))))"
proof -
  obtain l0 ls where ls: "blockLines block = l0 # ls"
    using blockLines_not_Nil[OF assms] by (cases "blockLines block") auto
  show ?thesis
  proof (cases "find (prefix ''Correct:'') (blockLines block)")
    case None
    then show ?thesis using ls by (simp add: parseMcqBlock_def)
  next
    case (Some line)
    then have "prefix ''Correct:'' line"
      by (auto simp: find_Some_iff)
    from split_colon_Correct[OF this] Some ls show ?thesis
      by (simp add: parseMcqBlock_def del: split.simps)
  qed
qed

lemma parseTheoryBlock_total: "\<exists>q a. parseTheoryBlock block = Inr (TheoryQuestion q a)"
proof -
  obtain p ps where "split ''Model Answer:'' block = p # ps"
    using split_not_Nil[of "''Model Answer:''" block]
    by (cases "split ''Model Answer:'' block") auto
  then show ?thesis by (simp add: parseTheoryBlock_def)
qed

lemma parseBlocks_map:
  assumes "\<forall>b \<in> set bs. f b = Inr (g b)"
  shows "parseBlocks f bs = Inr (map g bs)"
  using assms by (induction bs) auto

lemma questionBlocks_nonblank: "b \<in> set (questionBlocks content) \<Longrightarrow> trim b \<noteq> []"
  by (simp add: questionBlocks_def)

lemma generateQuestions_eq:
  "generateQuestions ty content =
     (if toLowerCase ty = ''mcq'' then parseBlocks parseMcqBlock (questionBlocks content)
      else parseBlocks parseTheoryBlock (questionBlocks content))"
  by (simp add: generateQuestions_def)

text \<open>
  Claim C3, as the code has it. For every segment that is not blank (\<open>questionBlocks\<close>
  keeps no other), the extracted \<open>correct\<close> is the text between the first colon and the next
  colon, or the end of the line when there is no second colon, of the first non-blank line
  that starts with \<^verbatim>\<open>Correct:\<close>, trimmed; it is absent when no line starts so. (The first
  colon of such a line is the one of \<^verbatim>\<open>Correct:\<close>.)
\<close>

theorem parseMcqBlock_label_between_colons:
  assumes "trim block \<noteq> []"
  shows "\<exists>question options.
           parseMcqBlock block =
             Inr (McqQuestion question options
                    (map_option
                       (\<lambda>line. trim (takeWhile (\<lambda>c. c \<noteq> CHR '':'')
                                        (drop (length ''Correct:'') line)))
                       (find (prefix ''Correct:'') (blockLines block))))"
  using parseMcqBlock_eq[OF assms] by blast

theorem parseMcqBlock_label_between_colons_witness:
  "trim secondColonSegment \<noteq> [] \<and>
   (\<exists>question options.
      parseMcqBlock secondColonSegment = Inr (McqQuestion question options (Some ''A'')))"
proof -
  have n: "trim secondColonSegment \<noteq> []" by code_simp
  have f: "map_option
             (\<lambda>line. trim (takeWhile (\<lambda>c. c \<noteq> CHR '':'') (drop (length ''Correct:'') line)))
             (find (prefix ''Correct:'') (blockLines secondColonSegment)) = Some ''A''"
    by code_simp
  show ?thesis
    using parseMcqBlock_label_between_colons[OF n] n unfolding f by blast
qed

text \<open>
  Claim C3 as stated fails: for the line \<^verbatim>\<open>Correct: A: because it is first\<close> the extracted
  label is \<^verbatim>\<open>A\<close>, and the whole text after the first colon, trimmed, is
  \<^verbatim>\<open>A: because it is first\<close>.
\<close>

theorem correct_label_second_colon_counterexample:
  "generateQuestions ''mcq'' (''Question: '' @ secondColonSegment) =
     Inr [McqQuestion ''What is X?'' [''A) a'', ''B) b'', ''C) c'', ''D) d''] (Some ''A'')] \<and>
   trim (afterFirstColon ''Correct: A: because it is first'') = ''A: because it is first''"
  by code_simp

text \<open>
  Claim C8. For every reply \<open>content\<close> and every \<open>type\<close> (\<^verbatim>\<open>mcq\<close> in any letter case, or
  anything else for the theoretical kind) \<open>generateQuestions\<close> returns a list and throws
  nothing; the empty reply gives the empty list; the list has one question per non-blank
  segment, in their order, and for the multiple-choice kind a segment without a line that
  starts with \<^verbatim>\<open>Correct:\<close> gives a question whose \<open>correct\<close> is absent.
\<close>

theorem generateQuestions_total:
  "generateQuestions ty [] = Inr [] \<and>
   (\<exists>questions.
      generateQuestions ty content = Inr questions \<and>
      length questions = length (questionBlocks content) \<and>
      (toLowerCase ty = ''mcq'' \<longrightarrow>
         (\<forall>i < length questions.
            find (prefix ''Correct:'') (blockLines (questionBlocks content ! i)) = None \<longrightarrow>
            (\<exists>question options. questions ! i = McqQuestion question options None))))"
proof (rule conjI)
  show "generateQuestions ty [] = Inr []"
    by (simp add: generateQuestions_eq questionBlocks_def trim_def)
next
  let ?bs = "questionBlocks content"
  let ?m = "\<lambda>block. McqQuestion (trim (hd (blockLines block)))
            (map trim (take 4 (drop 1 (blockLines block))))
            (map_option
               (\<lambda>line. trim (takeWhile (\<lambda>c. c \<noteq> CHR '':'') (drop (length ''Correct:'') line)))
               (find (prefix ''Correct:'') (blockLines block)))"
  show "\<exists>questions.
      generateQuestions ty content = Inr questions \<and>
      length questions = length ?bs \<and>
      (toLowerCase ty = ''mcq'' \<longrightarrow>
         (\<forall>i < length questions.
            find (prefix ''Correct:'') (blockLines (?bs ! i)) = None \<longrightarrow>
            (\<exists>question options. questions ! i = McqQuestion question options None)))"
  proof (cases "toLowerCase ty = ''mcq''")
    case True
    have "\<forall>b \<in> set ?bs. parseMcqBlock b = Inr (?m b)"
      using parseMcqBlock_eq questionBlocks_nonblank by blast
    then have "parseBlocks parseMcqBlock ?bs = Inr (map ?m ?bs)"
      by (rule parseBlocks_map)
    then have "generateQuestions ty content = Inr (map ?m ?bs)"
      using True by (simp add: generateQuestions_eq)
    then show ?thesis by auto
  next
    case False
    define t where "t = (\<lambda>block. SOME q. parseTheoryBlock block = Inr q)"
    have "\<forall>b \<in> set ?bs. parseTheoryBlock b = Inr (t b)"
      unfolding t_def using parseTheoryBlock_total by (metis (mono_tags, lifting) someI_ex)
    then have "parseBlocks parseTheoryBlock ?bs = Inr (map t ?bs)"
      by (rule parseBlocks_map)
    then have "generateQuestions ty content = Inr (map t ?bs)"
      using False by (simp add: generateQuestions_eq)
    then show ?thesis using False by auto
  qed
qed

theorem generateQuestions_total_witness:
  "\<exists>questions. generateQuestions ''MCQ'' unmarkedContent = Inr questions \<and>
      length questions = 2 \<and>
      (\<exists>question options. questions ! 1 = McqQuestion question options None)"
proof -
  have l: "length (questionBlocks unmarkedContent) = 2" by code_simp
  have m: "toLowerCase ''MCQ'' = ''mcq''" by code_simp
  have f: "find (prefix ''Correct:'') (blockLines (questionBlocks unmarkedContent ! 1)) = None"
    by code_simp
  from generateQuestions_total[of "''MCQ''" unmarkedContent, THEN conjunct2]
  obtain questions where q: "generateQuestions ''MCQ'' unmarkedContent = Inr questions"
      "length questions = 2"
      "\<forall>i < length questions.
            find (prefix ''Correct:'') (blockLines (questionBlocks unmarkedContent ! i)) = None \<longrightarrow>
            (\<exists>question options. questions ! i = McqQuestion question options None)"
    using l m by auto
  from q(3) q(2) f have "\<exists>question options. questions ! 1 = McqQuestion question options None"
    by auto
  with q(1,2) show ?thesis by blast
qed

section \<open>Replies in the prompt's format\<close>









lemma readableMcq_McqText [simp]:
  "readableMcq (McqText q a b c d l gap) \<longleftrightarrow>
     plainLine q \<and> trim q \<noteq> [] \<and> \<not> prefix ''Correct:'' q \<and>
     plainLine a \<and> plainLine b \<and> plainLine c \<and> plainLine d \<and> l \<in> set ''ABCD''"
  by (auto simp: readableMcq_def plainLine_def oneLine_def)










section \<open>The concept tables\<close>

lemma countAnswer_keys:
  "map fst (countAnswer b c m) = (if c \<in> fst ` set m then map fst m else map fst m @ [c])"
  by (auto simp: countAnswer_def Let_def map_of_eq_None_iff case_prod_beta cong: map_cong)

lemma map_of_map_upd:
  "map_of (map (\<lambda>(k, s). if k = c then (k, f s) else (k, s)) m) x =
     (if x = c then map_option f (map_of m c) else map_of m x)"
  by (induction m) auto

text \<open>The entry of a concept after one answer is counted.\<close>

lemma countAnswer_map_of:
  "map_of (countAnswer b c m) x =
     (if x = c
      then Some (case map_of m c of
                   None \<Rightarrow> \<lparr>correct = (if b then 1 else 0), total' = 1\<rparr>
                 | Some s \<Rightarrow> s\<lparr>total' := total' s + 1,
                               correct := (if b then correct s + 1 else correct s)\<rparr>)
      else map_of m x)"
proof -
  define m' where "m' = (if map_of m c = None then m @ [(c, \<lparr>correct = 0, total' = 0\<rparr>)] else m)"
  define f :: "counts \<Rightarrow> counts"
    where "f = (\<lambda>s. s\<lparr>total' := total' s + 1, correct := (if b then correct s + 1 else correct s)\<rparr>)"
  have c: "countAnswer b c m = map (\<lambda>(k, s). if k = c then (k, f s) else (k, s)) m'"
    unfolding countAnswer_def m'_def f_def Let_def by (rule refl)
  have 1: "map_of m' c =
      Some (case map_of m c of None \<Rightarrow> \<lparr>correct = 0, total' = 0\<rparr> | Some s \<Rightarrow> s)"
    by (cases "map_of m c") (simp_all add: m'_def map_add_def)
  have 2: "x \<noteq> c \<Longrightarrow> map_of m' x = map_of m x"
    by (simp add: m'_def map_add_def split: option.splits)
  show ?thesis
    unfolding c map_of_map_upd using 1 2
    by (cases "map_of m c") (simp_all add: f_def)
qed

lemma countAnswer_set:
  "(k, s) \<in> set (countAnswer b c m) \<Longrightarrow>
     (k \<noteq> c \<and> (k, s) \<in> set m) \<or>
     (k = c \<and> (\<exists>s0. ((k, s0) \<in> set m \<or> s0 = \<lparr>correct = 0, total' = 0\<rparr>) \<and>
        s = s0\<lparr>total' := total' s0 + 1, correct := (if b then correct s0 + 1 else correct s0)\<rparr>))"
  by (auto simp: countAnswer_def Let_def split: if_splits)

lemma foldl_trackConcept:
  "foldl (trackConcept b) (m, t) cs =
     (foldl (\<lambda>m c. countAnswer b c m) m cs, foldl (\<lambda>m c. countAnswer b c m) t cs)"
  by (induction cs arbitrary: m t) (auto simp: trackConcept_def)

lemma countsInvariant_Nil: "countsInvariant []"
  by (simp add: countsInvariant_def)

lemma countAnswer_invariant:
  assumes "countsInvariant m"
  shows "countsInvariant (countAnswer b c m)"
proof -
  have "distinct (map fst (countAnswer b c m))"
    using assms by (auto simp: countAnswer_keys countsInvariant_def)
  moreover have "\<forall>(k, s) \<in> set (countAnswer b c m). correct s \<le> total' s \<and> 1 \<le> total' s"
    using assms countAnswer_set[of _ _ b c m]
    by (fastforce simp: countsInvariant_def)
  ultimately show ?thesis by (simp add: countsInvariant_def)
qed

lemma foldl_countAnswer_invariant:
  "countsInvariant m \<Longrightarrow> countsInvariant (foldl (\<lambda>m c. countAnswer b c m) m cs)"
  by (induction cs arbitrary: m) (auto simp: countAnswer_invariant)

lemma countAnswer_keys_set: "fst ` set (countAnswer b c m) = insert c (fst ` set m)"
proof -
  have "set (map fst (countAnswer b c m)) = insert c (fst ` set m)"
    unfolding countAnswer_keys by auto
  then show ?thesis by simp
qed

lemma foldl_countAnswer_keys:
  "fst ` set (foldl (\<lambda>m c. countAnswer b c m) m cs) = fst ` set m \<union> set cs"
  by (induction cs arbitrary: m) (auto simp: countAnswer_keys_set)

text \<open>The entry of a concept after the first loop of \<open>trackAnswer\<close>: counted once.\<close>

lemma foldl_countAnswer_map_of:
  assumes "distinct cs"
  shows "map_of (foldl (\<lambda>m c. countAnswer b c m) m cs) x =
     (if x \<in> set cs
      then Some (case map_of m x of
                   None \<Rightarrow> \<lparr>correct = (if b then 1 else 0), total' = 1\<rparr>
                 | Some s \<Rightarrow> s\<lparr>total' := total' s + 1,
                               correct := (if b then correct s + 1 else correct s)\<rparr>)
      else map_of m x)"
  using assms
proof (induction cs arbitrary: m)
  case Nil
  then show ?case by simp
next
  case (Cons c cs)
  then show ?case
    by (simp add: countAnswer_map_of)
qed

section \<open>The weak areas\<close>

lemma updateWeakAreas_total:
  assumes "\<forall>c \<in> set cs. map_of M c \<noteq> None"
  shows "fst (updateWeakAreas M cs (w, tw)) = None \<and>
     set (fst (snd (updateWeakAreas M cs (w, tw)))) =
       set w \<union> {c \<in> set cs. \<exists>s. map_of M c = Some s \<and> ratioBelow s (7 / 10)} \<and>
     set (snd (snd (updateWeakAreas M cs (w, tw)))) =
       set tw \<union> {c \<in> set cs. \<exists>s. map_of M c = Some s \<and> ratioBelow s (7 / 10)}"
  using assms
proof (induction cs arbitrary: w tw)
  case Nil
  then show ?case by simp
next
  case (Cons c cs)
  then obtain s where s: "map_of M c = Some s" by auto
  have ih: "\<And>w tw. fst (updateWeakAreas M cs (w, tw)) = None \<and>
     set (fst (snd (updateWeakAreas M cs (w, tw)))) =
       set w \<union> {c \<in> set cs. \<exists>s. map_of M c = Some s \<and> ratioBelow s (7 / 10)} \<and>
     set (snd (snd (updateWeakAreas M cs (w, tw)))) =
       set tw \<union> {c \<in> set cs. \<exists>s. map_of M c = Some s \<and> ratioBelow s (7 / 10)}"
    using Cons by simp
  show ?case
  proof (cases "ratioBelow s (7 / 10)")
    case True
    then have "updateWeakAreas M (c # cs) (w, tw) =
        updateWeakAreas M cs (setAdd c w, setAdd c tw)"
      using s by (simp add: ratioBelow_def)
    then show ?thesis using ih[of "setAdd c w" "setAdd c tw"] s True
      by (auto simp: setAdd_def)
  next
    case False
    then have "updateWeakAreas M (c # cs) (w, tw) = updateWeakAreas M cs (w, tw)"
      using s by (simp add: ratioBelow_def)
    then show ?thesis using ih[of w tw] s False by auto
  qed
qed

lemma updateWeakAreas_distinct:
  "distinct w \<Longrightarrow> distinct tw \<Longrightarrow>
   distinct (fst (snd (updateWeakAreas M cs (w, tw)))) \<and>
   distinct (snd (snd (updateWeakAreas M cs (w, tw))))"
proof (induction cs arbitrary: w tw)
  case Nil
  then show ?case by simp
next
  case (Cons c cs)
  have d: "distinct (setAdd c w)" "distinct (setAdd c tw)"
    using Cons.prems by (auto simp: setAdd_def)
  show ?case
    using Cons.IH[OF Cons.prems] Cons.IH[OF d] Cons.prems
    by (auto split: option.splits)
qed

lemma weakUpdate_props:
  assumes "set cs \<subseteq> fst ` set M" "distinct w" "distinct tw" "set tw \<subseteq> set w"
    "set w \<subseteq> fst ` set M"
  shows "fst (weakUpdate b M cs (w, tw)) = None"
    "distinct (fst (snd (weakUpdate b M cs (w, tw))))"
    "distinct (snd (snd (weakUpdate b M cs (w, tw))))"
    "set w \<subseteq> set (fst (snd (weakUpdate b M cs (w, tw))))"
    "set (snd (snd (weakUpdate b M cs (w, tw)))) \<subseteq> set (fst (snd (weakUpdate b M cs (w, tw))))"
    "set (fst (snd (weakUpdate b M cs (w, tw)))) \<subseteq> fst ` set M"
    "set tw \<subseteq> set (snd (snd (weakUpdate b M cs (w, tw))))"
proof -
  have d: "\<forall>c \<in> set cs. map_of M c \<noteq> None"
    using assms(1) by (auto simp: map_of_eq_None_iff)
  note t = updateWeakAreas_total[OF d, of w tw]
  note di = updateWeakAreas_distinct[OF assms(2,3), of M cs]
  show "fst (weakUpdate b M cs (w, tw)) = None"
    using t by (simp add: weakUpdate_def)
  show "distinct (fst (snd (weakUpdate b M cs (w, tw))))"
    using di assms by (simp add: weakUpdate_def)
  show "distinct (snd (snd (weakUpdate b M cs (w, tw))))"
    using di assms by (simp add: weakUpdate_def)
  show "set w \<subseteq> set (fst (snd (weakUpdate b M cs (w, tw))))"
    using t by (auto simp: weakUpdate_def)
  show "set (snd (snd (weakUpdate b M cs (w, tw)))) \<subseteq> set (fst (snd (weakUpdate b M cs (w, tw))))"
    using t assms(4) by (auto simp: weakUpdate_def)
  show "set (fst (snd (weakUpdate b M cs (w, tw)))) \<subseteq> fst ` set M"
    using t assms(1,5) by (auto simp: weakUpdate_def)
  show "set tw \<subseteq> set (snd (snd (weakUpdate b M cs (w, tw))))"
    using t by (auto simp: weakUpdate_def)
qed

section \<open>What a call does\<close>

text \<open>A topic that names a property of \<^verbatim>\<open>Object.prototype\<close>, on an agent without own entries for it.\<close>

lemma trackAnswer_inherited:
  assumes "topicPerformance a topic = None" "topic \<in> set objectPrototypeKeys"
    "timeSpent a topic = None"
  shows "trackAnswer a topic q b ev tt now =
     (if truthy tt then (Some TypeError, counted b a)
      else case extractConcepts q of
             [] \<Rightarrow> (None, (counted b a)\<lparr>questionHistory := questionHistory a @
                       [HistoryEntry topic q b ev tt [] now]\<rparr>)
           | c # cs \<Rightarrow> (Some TypeError,
                (counted b a)\<lparr>conceptMastery := countAnswer b c (conceptMastery a)\<rparr>))"
  using assms
  by (cases tt)
     (simp_all add: trackAnswer_def getProperty_def recordTime_def Let_def counted_def
        split: list.splits)

text \<open>Every other topic.\<close>

lemma trackAnswer_own:
  assumes "topic \<notin> set objectPrototypeKeys"
  shows "trackAnswer a topic q b ev tt now =
     (let cs = extractConcepts q;
          st0 = (case topicPerformance a topic of Some s \<Rightarrow> s | None \<Rightarrow> newTopicStats);
          samples = (case timeSpent a topic of None \<Rightarrow> [] | Some l \<Rightarrow> l);
          M = foldl (\<lambda>m c. countAnswer b c m) (conceptMastery a) cs;
          W = (if \<not> b then updateWeakAreas M cs (weakAreas a, topicWeakAreas st0)
               else (None, weakAreas a, topicWeakAreas st0))
      in (fst W,
          a\<lparr>totalQuestions := totalQuestions a + 1,
            correctAnswers := (if b then correctAnswers a + 1 else correctAnswers a),
            topicPerformance := (topicPerformance a)(topic \<mapsto>
               st0\<lparr>total' := total' st0 + 1,
                   correct := (if b then correct st0 + 1 else correct st0),
                   averageTime := (if truthy tt
                                   then StringValue (toFixed2 (arithmeticMean (samples @ [the tt])))
                                   else averageTime st0),
                   conceptsTests := foldl (\<lambda>m c. countAnswer b c m) (conceptsTests st0) cs,
                   topicWeakAreas := snd (snd W)\<rparr>),
            timeSpent := (if truthy tt then (timeSpent a)(topic \<mapsto> samples @ [the tt])
                          else timeSpent a),
            conceptMastery := M,
            questionHistory := questionHistory a @ [HistoryEntry topic q b ev tt cs now],
            weakAreas := fst (snd W)\<rparr>))"
  using assms
  by (cases tt; cases "topicPerformance a topic"; cases "timeSpent a topic")
     (simp_all add: trackAnswer_def getProperty_def recordTime_def calculateAverageTime_def
        arithmeticMean_def Let_def foldl_trackConcept)

section \<open>The invariant\<close>

lemma agentInvariant_new: "agentInvariant newProgressTrackingAgent"
  by (simp add: agentInvariant_def newProgressTrackingAgent_def countsInvariant_Nil)

lemma agentInvariant_trackAnswer:
  assumes inv: "agentInvariant a"
  shows "agentInvariant (snd (trackAnswer a topic q b ev tt now))"
proof (cases "topic \<in> set objectPrototypeKeys")
  case True
  then have n: "topicPerformance a topic = None" "timeSpent a topic = None"
    using inv by (auto simp: agentInvariant_def)
  show ?thesis
    unfolding trackAnswer_inherited[OF n(1) True n(2)]
    using inv countAnswer_invariant[of "conceptMastery a" b]
    by (auto simp: agentInvariant_def counted_def countAnswer_keys_set split: list.splits)
next
  case False
  define cs where "cs = extractConcepts q"
  define st0 where "st0 = (case topicPerformance a topic of Some s \<Rightarrow> s | None \<Rightarrow> newTopicStats)"
  define M where "M = foldl (\<lambda>m c. countAnswer b c m) (conceptMastery a) cs"
  define W where "W = weakUpdate b M cs (weakAreas a, topicWeakAreas st0)"
  have st0: "correct st0 \<le> total' st0" "countsInvariant (conceptsTests st0)"
    "distinct (topicWeakAreas st0)" "set (topicWeakAreas st0) \<subseteq> set (weakAreas a)"
    using inv
    by (auto simp: st0_def agentInvariant_def newTopicStats_def countsInvariant_Nil
        split: option.splits)
  have keys: "fst ` set M = fst ` set (conceptMastery a) \<union> set cs"
    by (simp add: M_def foldl_countAnswer_keys)
  have Minv: "countsInvariant M"
    using inv by (simp add: M_def foldl_countAnswer_invariant agentInvariant_def)
  have w: "distinct (weakAreas a)" "set (weakAreas a) \<subseteq> fst ` set M"
    using inv keys by (auto simp: agentInvariant_def)
  have cs: "set cs \<subseteq> fst ` set M" using keys by simp
  note W = weakUpdate_props[OF cs w(1) st0(3) st0(4) w(2), of b, folded W_def]
  have others: "\<And>t s. topicPerformance a t = Some s \<Longrightarrow>
         correct s \<le> total' s \<and> 1 \<le> total' s \<and> countsInvariant (conceptsTests s) \<and>
         distinct (topicWeakAreas s) \<and> set (topicWeakAreas s) \<subseteq> set (fst (snd W))"
  proof -
    fix t s assume ts: "topicPerformance a t = Some s"
    then have "set (topicWeakAreas s) \<subseteq> set (weakAreas a)"
      using inv by (simp add: agentInvariant_def)
    then have "set (topicWeakAreas s) \<subseteq> set (fst (snd W))"
      using W(4) by blast
    then show "correct s \<le> total' s \<and> 1 \<le> total' s \<and> countsInvariant (conceptsTests s) \<and>
         distinct (topicWeakAreas s) \<and> set (topicWeakAreas s) \<subseteq> set (fst (snd W))"
      using inv ts by (simp add: agentInvariant_def)
  qed
  have proto: "\<forall>t \<in> set objectPrototypeKeys.
         topicPerformance a t = None \<and> timeSpent a t = None"
    using inv by (simp add: agentInvariant_def)
  have le: "correctAnswers a \<le> totalQuestions a"
    using inv by (simp add: agentInvariant_def)
  show ?thesis
    unfolding trackAnswer_own[OF False] Let_def cs_def[symmetric] st0_def[symmetric]
      M_def[symmetric] weakUpdate_def[symmetric] W_def[symmetric]
    unfolding agentInvariant_def
    using W(1-6) st0 Minv others proto le False foldl_countAnswer_invariant[OF st0(2), of b cs]
    by auto
qed

lemma afterCalls_snoc: "afterCalls (calls @ [c]) = perform (afterCalls calls) c"
  by (simp add: afterCalls_def)

lemma afterCalls_append:
  "afterCalls (calls @ later) = foldl perform (afterCalls calls) later"
  by (simp add: afterCalls_def)

text \<open>Every state that calls can reach satisfies the invariant.\<close>

lemma agentInvariant_afterCalls: "agentInvariant (afterCalls calls)"
proof (induction calls rule: rev_induct)
  case Nil
  then show ?case by (simp add: afterCalls_def agentInvariant_new)
next
  case (snoc c calls)
  then show ?case
    by (cases c) (simp add: afterCalls_snoc agentInvariant_trackAnswer)
qed

section \<open>Counters\<close>

text \<open>
  Claim C6. After every finite sequence of \<open>trackAnswer\<close> calls on a fresh agent (calls
  that throw included), the number of correct answers is at most the number of answers: for
  the global counters, for every entry of the global concept table, for the statistics of
  every topic and for every entry of a topic's concept table.
\<close>

theorem correct_never_exceeds_total:
  "correctAnswers (afterCalls calls) \<le> totalQuestions (afterCalls calls) \<and>
   (\<forall>(c, stats) \<in> set (conceptMastery (afterCalls calls)). correct stats \<le> total' stats) \<and>
   (\<forall>topic stats. topicPerformance (afterCalls calls) topic = Some stats \<longrightarrow>
      correct stats \<le> total' stats \<and>
      (\<forall>(c, entry) \<in> set (conceptsTests stats). correct entry \<le> total' entry))"
  using agentInvariant_afterCalls[of calls]
  unfolding agentInvariant_def countsInvariant_def by fastforce

lemma sample_weakAreas: "weakAreas (afterCalls sampleCalls) = [''function'', ''loop'']"
  by code_simp

lemma sample_conceptMastery:
  "conceptMastery (afterCalls sampleCalls) =
     [(''function'', \<lparr>correct = 0, total' = 3\<rparr>), (''loop'', \<lparr>correct = 2, total' = 3\<rparr>),
      (''array'', \<lparr>correct = 3, total' = 4\<rparr>)]"
  by code_simp

lemma sample_JS:
  "topicPerformance (afterCalls sampleCalls) ''JS'' =
     Some \<lparr>correct = 2, total' = 6, topicWeakAreas = [''function'', ''loop''],
       conceptsTests = [(''function'', \<lparr>correct = 0, total' = 3\<rparr>),
                        (''loop'', \<lparr>correct = 2, total' = 3\<rparr>)],
       averageTime = StringValue (FixedDecimal False 300)\<rparr>"
  by code_simp

theorem correct_never_exceeds_total_witness:
  "\<exists>stats. topicPerformance (afterCalls sampleCalls) ''JS'' = Some stats \<and>
     correct stats \<le> total' stats \<and> total' stats = 6 \<and>
     (''loop'', \<lparr>correct = 2, total' = 3\<rparr>) \<in> set (conceptsTests stats) \<and>
     (''array'', \<lparr>correct = 3, total' = 4\<rparr>) \<in> set (conceptMastery (afterCalls sampleCalls))"
proof -
  let ?stats = "\<lparr>correct = 2, total' = 6, topicWeakAreas = [''function'', ''loop''],
       conceptsTests = [(''function'', \<lparr>correct = 0, total' = 3\<rparr>),
                        (''loop'', \<lparr>correct = 2, total' = 3\<rparr>)],
       averageTime = StringValue (FixedDecimal False 300)\<rparr>"
  have "correct ?stats \<le> total' ?stats"
    by (rule correct_never_exceeds_total[of sampleCalls, THEN conjunct2, THEN conjunct2,
          THEN spec, THEN spec, THEN mp, OF sample_JS, THEN conjunct1])
  then show ?thesis
    using sample_JS sample_conceptMastery by simp
qed

section \<open>Weak areas\<close>

text \<open>
  Claim C9. After every finite sequence of \<open>trackAnswer\<close> calls on a fresh agent, every
  concept of the global weak areas and of every topic's weak areas has an entry in the
  global concept table, and that entry has been counted at least once: the ratio of a weak
  area never has a missing or zero denominator.
\<close>

theorem weakAreas_are_counted:
  "(\<forall>c \<in> set (weakAreas (afterCalls calls)).
      \<exists>stats. map_of (conceptMastery (afterCalls calls)) c = Some stats \<and> 1 \<le> total' stats) \<and>
   (\<forall>topic tstats. topicPerformance (afterCalls calls) topic = Some tstats \<longrightarrow>
      (\<forall>c \<in> set (topicWeakAreas tstats).
         \<exists>stats. map_of (conceptMastery (afterCalls calls)) c = Some stats \<and>
                 1 \<le> total' stats))"
proof -
  define a where "a = afterCalls calls"
  have inv: "agentInvariant a" unfolding a_def by (rule agentInvariant_afterCalls)
  have key: "\<exists>stats. map_of (conceptMastery a) c = Some stats \<and> 1 \<le> total' stats"
    if "c \<in> set (weakAreas a)" for c
  proof -
    from that inv obtain stats where m: "(c, stats) \<in> set (conceptMastery a)"
      by (fastforce simp: agentInvariant_def)
    then have "map_of (conceptMastery a) c = Some stats"
      using inv by (simp add: agentInvariant_def countsInvariant_def)
    moreover have "1 \<le> total' stats"
      using inv m by (fastforce simp: agentInvariant_def countsInvariant_def)
    ultimately show ?thesis by blast
  qed
  have "c \<in> set (weakAreas a)"
    if "topicPerformance a topic = Some tstats" "c \<in> set (topicWeakAreas tstats)"
    for topic tstats c
  proof -
    have "set (topicWeakAreas tstats) \<subseteq> set (weakAreas a)"
      using inv that(1) by (simp add: agentInvariant_def)
    then show ?thesis using that(2) by blast
  qed
  then show ?thesis
    unfolding a_def[symmetric] using key by blast
qed

theorem weakAreas_are_counted_witness:
  "''loop'' \<in> set (weakAreas (afterCalls sampleCalls)) \<and>
   (\<exists>stats. map_of (conceptMastery (afterCalls sampleCalls)) ''loop'' = Some stats \<and>
           1 \<le> total' stats)"
proof -
  have m: "''loop'' \<in> set (weakAreas (afterCalls sampleCalls))"
    by (simp add: sample_weakAreas)
  from weakAreas_are_counted[of sampleCalls, THEN conjunct1, THEN bspec, OF m] m
  show ?thesis by (rule_tac conjI)
qed

text \<open>
  For a topic that is not the name of a property of \<^verbatim>\<open>Object.prototype\<close>, a call throws
  nothing, and it adds to the global weak areas and to the topic's exactly the concepts of
  the question whose ratio, with this call counted, is below 0.7, when the answer is wrong;
  it adds nothing when the answer is right.
\<close>

lemma trackAnswer_weakAreas_exact:
  assumes "topic \<notin> set objectPrototypeKeys"
  shows "fst (trackAnswer a topic q b ev tt now) = None \<and>
     set (weakAreas (snd (trackAnswer a topic q b ev tt now))) =
       set (weakAreas a) \<union>
       {c \<in> set (extractConcepts q). \<not> b \<and>
          (\<exists>s. map_of (conceptMastery (snd (trackAnswer a topic q b ev tt now))) c = Some s \<and>
               ratioBelow s (7 / 10))} \<and>
     (\<exists>stats. topicPerformance (snd (trackAnswer a topic q b ev tt now)) topic = Some stats \<and>
        set (topicWeakAreas stats) =
          set (case topicPerformance a topic of None \<Rightarrow> [] | Some s \<Rightarrow> topicWeakAreas s) \<union>
          {c \<in> set (extractConcepts q). \<not> b \<and>
             (\<exists>s. map_of (conceptMastery (snd (trackAnswer a topic q b ev tt now))) c = Some s \<and>
                  ratioBelow s (7 / 10))})"
proof -
  define cs where "cs = extractConcepts q"
  define st0 where "st0 = (case topicPerformance a topic of Some s \<Rightarrow> s | None \<Rightarrow> newTopicStats)"
  define M where "M = foldl (\<lambda>m c. countAnswer b c m) (conceptMastery a) cs"
  have d: "\<forall>c \<in> set cs. map_of M c \<noteq> None"
    using foldl_countAnswer_keys[of b "conceptMastery a" cs]
    by (auto simp: M_def map_of_eq_None_iff)
  note t = updateWeakAreas_total[OF d, of "weakAreas a" "topicWeakAreas st0"]
  have tw: "topicWeakAreas st0 =
      (case topicPerformance a topic of None \<Rightarrow> [] | Some s \<Rightarrow> topicWeakAreas s)"
    by (simp add: st0_def newTopicStats_def split: option.splits)
  show ?thesis
    unfolding trackAnswer_own[OF assms] Let_def cs_def[symmetric] st0_def[symmetric]
      M_def[symmetric] tw[symmetric]
    using t by (cases b) auto
qed

text \<open>No call removes a concept from the global weak areas or from a topic's.\<close>

lemma trackAnswer_weakAreas_monotone:
  assumes "agentInvariant a"
  shows "set (weakAreas a) \<subseteq> set (weakAreas (snd (trackAnswer a topic q b ev tt now))) \<and>
     (\<forall>t s. topicPerformance a t = Some s \<longrightarrow>
        (\<exists>s'. topicPerformance (snd (trackAnswer a topic q b ev tt now)) t = Some s' \<and>
              set (topicWeakAreas s) \<subseteq> set (topicWeakAreas s')))"
proof (cases "topic \<in> set objectPrototypeKeys")
  case True
  then have n: "topicPerformance a topic = None" "timeSpent a topic = None"
    using assms by (auto simp: agentInvariant_def)
  show ?thesis
    unfolding trackAnswer_inherited[OF n(1) True n(2)]
    by (auto simp: counted_def split: list.splits)
next
  case False
  define cs where "cs = extractConcepts q"
  define st0 where "st0 = (case topicPerformance a topic of Some s \<Rightarrow> s | None \<Rightarrow> newTopicStats)"
  define M where "M = foldl (\<lambda>m c. countAnswer b c m) (conceptMastery a) cs"
  define W where "W = weakUpdate b M cs (weakAreas a, topicWeakAreas st0)"
  have keys: "fst ` set M = fst ` set (conceptMastery a) \<union> set cs"
    by (simp add: M_def foldl_countAnswer_keys)
  have st0: "distinct (topicWeakAreas st0)" "set (topicWeakAreas st0) \<subseteq> set (weakAreas a)"
    using assms
    by (auto simp: st0_def agentInvariant_def newTopicStats_def split: option.splits)
  have w: "distinct (weakAreas a)" "set (weakAreas a) \<subseteq> fst ` set M"
    using assms keys by (auto simp: agentInvariant_def)
  have cs: "set cs \<subseteq> fst ` set M" using keys by simp
  note W = weakUpdate_props[OF cs w(1) st0(1) st0(2) w(2), of b, folded W_def]
  have own: "topicPerformance a topic = Some s \<Longrightarrow> topicWeakAreas s = topicWeakAreas st0" for s
    by (simp add: st0_def)
  show ?thesis
    unfolding trackAnswer_own[OF False] Let_def cs_def[symmetric] st0_def[symmetric]
      M_def[symmetric] weakUpdate_def[symmetric] W_def[symmetric]
    using W(4,7) own by auto
qed

lemma weakAreas_monotone:
  "set (weakAreas (afterCalls calls)) \<subseteq> set (weakAreas (afterCalls (calls @ later))) \<and>
   (\<forall>t s. topicPerformance (afterCalls calls) t = Some s \<longrightarrow>
      (\<exists>s'. topicPerformance (afterCalls (calls @ later)) t = Some s' \<and>
            set (topicWeakAreas s) \<subseteq> set (topicWeakAreas s')))"
proof (induction later rule: rev_induct)
  case Nil
  then show ?case by simp
next
  case (snoc c later)
  obtain tp q b ev tt now where c: "c = TrackAnswer tp q b ev tt now" by (cases c)
  have inv: "agentInvariant (afterCalls (calls @ later))"
    by (rule agentInvariant_afterCalls)
  have step: "afterCalls (calls @ later @ [c]) =
      snd (trackAnswer (afterCalls (calls @ later)) tp q b ev tt now)"
    using afterCalls_snoc[of "calls @ later" c] by (simp add: c)
  from trackAnswer_weakAreas_monotone[OF inv, of tp q b ev tt now] snoc
  show ?case unfolding step by (metis (no_types, lifting) subset_trans)
qed

text \<open>
  Claim C1 at a topic that names a property of \<^verbatim>\<open>Object.prototype\<close>: the first call of a
  fresh agent, with topic \<^verbatim>\<open>constructor\<close>, the question \<^verbatim>\<open>explain array\<close> and a wrong
  answer. The call throws a \<^verbatim>\<open>TypeError\<close> after the global table has counted the concept
  "array" (0 of 1, below 0.7), before the history and the weak areas are reached: the
  concept is in no weak area, and the topic has no statistics.
\<close>

theorem trackAnswer_inherited_topic_throws:
  "fst (trackAnswer newProgressTrackingAgent ''constructor'' ''explain array'' False
          ''Incorrect.'' None 0) = Some TypeError \<and>
   weakAreas (snd (trackAnswer newProgressTrackingAgent ''constructor'' ''explain array'' False
          ''Incorrect.'' None 0)) = [] \<and>
   conceptMastery (snd (trackAnswer newProgressTrackingAgent ''constructor'' ''explain array''
          False ''Incorrect.'' None 0)) = [(''array'', \<lparr>correct = 0, total' = 1\<rparr>)] \<and>
   topicPerformance (snd (trackAnswer newProgressTrackingAgent ''constructor''
          ''explain array'' False ''Incorrect.'' None 0)) ''constructor'' = None \<and>
   extractConcepts ''explain array'' = [''array''] \<and>
   ratioBelow \<lparr>correct = 0, total' = 1\<rparr> (7 / 10)"
  by code_simp

section \<open>Recommendations\<close>

text \<open>
  On entries whose \<open>mastery\<close> is a decimal without sign of at most 10000 hundredths,
  \<open>sortBy\<close> with the comparator of \<open>generateRecommendedFocus\<close> is the stable sort by
  hundredths.
\<close>

lemma insertSorted_insort_key:
  assumes "\<forall>e \<in> set (x # ys). \<exists>n \<le> 10000. mastery e = FixedDecimal False n"
  shows "insertSorted (\<lambda>a b. numSub (toNumber (mastery a)) (toNumber (mastery b))) x ys =
           insort_key hundredths x ys"
  using assms
proof (induction ys)
  case Nil
  then show ?case by simp
next
  case (Cons y ys)
  obtain n where n: "n \<le> 10000" "mastery x = FixedDecimal False n"
    using Cons.prems by auto
  obtain m where m: "m \<le> 10000" "mastery y = FixedDecimal False m"
    using Cons.prems by auto
  have c: "numLess (Finite 0) (numSub (toNumber (mastery x)) (toNumber (mastery y))) \<longleftrightarrow>
      \<not> hundredths x \<le> hundredths y"
    unfolding n(2) m(2) compare_decimals[OF n(1) m(1)]
    by (auto simp: hundredths_def n(2) m(2))
  have ih: "insertSorted (\<lambda>a b. numSub (toNumber (mastery a)) (toNumber (mastery b))) x ys =
           insort_key hundredths x ys"
    using Cons by simp
  show ?case
    unfolding insertSorted.simps c ih by simp
qed

lemma sortBy_sort_key:
  assumes "\<forall>e \<in> set xs. \<exists>n \<le> 10000. mastery e = FixedDecimal False n"
  shows "sortBy (\<lambda>a b. numSub (toNumber (mastery a)) (toNumber (mastery b))) xs =
           sort_key hundredths xs"
  using assms
proof (induction xs)
  case Nil
  then show ?case by (simp add: sortBy_def)
next
  case (Cons x xs)
  then have ih: "sortBy (\<lambda>a b. numSub (toNumber (mastery a)) (toNumber (mastery b))) xs =
      sort_key hundredths xs"
    by simp
  have "\<forall>e \<in> set (x # sort_key hundredths xs). \<exists>n \<le> 10000. mastery e = FixedDecimal False n"
    using Cons.prems by simp
  from insertSorted_insort_key[OF this] ih show ?case
    by (simp add: sortBy_def sort_key_def)
qed

lemma generateRecommendedFocus_eq:
  "generateRecommendedFocus a =
     sortBy (\<lambda>x y. numSub (toNumber (mastery x)) (toNumber (mastery y)))
       (concat (map (\<lambda>c. case map_of (conceptMastery a) c of
                     None \<Rightarrow> []
                   | Some m \<Rightarrow>
                       if ratioBelow m (6 / 10)
                       then [\<lparr>concept = c, type = ''weak'',
                              mastery = percentageOf (correct m) (total' m)\<rparr>]
                       else []) (weakAreas a)) @
        concat (map (\<lambda>(c, stats).
                       if c \<notin> set (weakAreas a) \<and> ratioBelow stats (8 / 10)
                       then [\<lparr>concept = c, type = ''practice'',
                              mastery = percentageOf (correct stats) (total' stats)\<rparr>]
                       else []) (conceptMastery a)))"
  by (simp add: generateRecommendedFocus_def Let_def)

text \<open>
  What the comparisons and the percentage of an entry of a concept table are, when the
  entry is counted and its total is below \<open>2^48\<close>.
\<close>

lemma counted_entry:
  fixes m :: counts
  assumes "correct m \<le> total' m" "1 \<le> total' m" "total' m < 2 ^ 48"
  shows "(ratioBelow m (6 / 10) \<longleftrightarrow> 10 * correct m < 6 * total' m) \<and>
         (ratioBelow m (8 / 10) \<longleftrightarrow> 10 * correct m < 8 * total' m) \<and>
         (\<exists>n. percentageOf (correct m) (total' m) = FixedDecimal False n \<and>
              \<bar>of_nat n - 10000 * of_nat (correct m) / of_nat (total' m)\<bar>
                \<le> (1 / 2 + 1 / 10 ^ 10 :: rat))"
proof -
  have m: "m = \<lparr>correct = correct m, total' = total' m\<rparr>" by simp
  have t: "0 < total' m" using assms(2) by simp
  have 6: "ratioBelow m (6 / 10) \<longleftrightarrow> 10 * correct m < 6 * total' m"
    using ratioBelow_exact[OF assms(1) t assms(3), of 6] m by simp
  have 8: "ratioBelow m (8 / 10) \<longleftrightarrow> 10 * correct m < 8 * total' m"
    using ratioBelow_exact[OF assms(1) t assms(3), of 8] m by simp
  have "total' m < 9007199254740992" using assms(3) by simp
  then have mn: "min (correct m) 9007199254740992 = correct m"
    "min (total' m) 9007199254740992 = total' m"
    using assms(1) by simp_all
  from percentageOf_shape[OF assms(1) t] 6 8 show ?thesis
    unfolding mn by auto
qed

text \<open>
  Claim C2. In every state \<open>a\<close> that calls on a fresh agent can reach, the list \<open>r\<close> of
  \<open>generateRecommendedFocus\<close> has at most one entry per concept, and its entries are exactly:
  an entry of type \<^verbatim>\<open>weak\<close> for every concept of the global weak areas whose ratio is below
  0.6, and an entry of type \<^verbatim>\<open>practice\<close> for every concept of the concept table that is not
  a weak area and whose ratio is below 0.8, each with the percentage of its concept as
  \<open>mastery\<close>. A weak area has an entry in the table and, when its ratio is not below 0.6, no
  entry in \<open>r\<close>. Every \<open>mastery\<close> is a decimal without sign, and the list is in ascending
  order of their hundredths. The ratios and percentages are the ones of binary64
  arithmetic: for an entry of the table with a total below \<open>2^48\<close>, the ratio is below 0.6
  or 0.8 exactly when \<open>correct / total\<close> is, and the hundredths of its percentage are
  \<open>10000 * correct / total\<close> rounded to a nearest integer (they differ from it by at most
  \<open>1/2 + 10^-10\<close>).
\<close>

theorem generateRecommendedFocus_exact:
  fixes calls :: "call list"
  shows
  "let a = afterCalls calls; r = generateRecommendedFocus a in
     distinct (map concept r) \<and>
     set r =
       {\<lparr>concept = c, type = ''weak'', mastery = percentageOf (correct m) (total' m)\<rparr> | c m.
          c \<in> set (weakAreas a) \<and> map_of (conceptMastery a) c = Some m \<and>
          ratioBelow m (6 / 10)} \<union>
       {\<lparr>concept = c, type = ''practice'', mastery = percentageOf (correct m) (total' m)\<rparr> | c m.
          c \<notin> set (weakAreas a) \<and> map_of (conceptMastery a) c = Some m \<and>
          ratioBelow m (8 / 10)} \<and>
     (\<forall>c \<in> set (weakAreas a). \<exists>m. map_of (conceptMastery a) c = Some m \<and>
        (\<not> ratioBelow m (6 / 10) \<longrightarrow> c \<notin> concept ` set r)) \<and>
     (\<exists>ns. map mastery r = map (FixedDecimal False) ns \<and> sorted ns) \<and>
     (\<forall>(c, m) \<in> set (conceptMastery a). total' m < 2 ^ 48 \<longrightarrow>
        (ratioBelow m (6 / 10) \<longleftrightarrow> 10 * correct m < 6 * total' m) \<and>
        (ratioBelow m (8 / 10) \<longleftrightarrow> 10 * correct m < 8 * total' m) \<and>
        (\<exists>n. percentageOf (correct m) (total' m) = FixedDecimal False n \<and>
             \<bar>of_nat n - 10000 * of_nat (correct m) / of_nat (total' m)\<bar>
               \<le> (1 / 2 + 1 / 10 ^ 10 :: rat)))"
proof -
  define a where "a = afterCalls calls"
  define cm where "cm = conceptMastery a"
  define wk where "wk = weakAreas a"
  define fw where "fw = (\<lambda>c. case map_of cm c of
                     None \<Rightarrow> []
                   | Some m \<Rightarrow>
                       if ratioBelow m (6 / 10)
                       then [\<lparr>concept = c, type = ''weak'',
                              mastery = percentageOf (correct m) (total' m)\<rparr>]
                       else [])"
  define fp where "fp = (\<lambda>(c, stats).
                       if c \<notin> set wk \<and> ratioBelow stats (8 / 10)
                       then [\<lparr>concept = c, type = ''practice'',
                              mastery = percentageOf (correct stats) (total' stats)\<rparr>]
                       else [])"
  define L where "L = concat (map fw wk) @ concat (map fp cm)"
  define r where "r = generateRecommendedFocus a"
  have inv: "agentInvariant a"
    unfolding a_def by (rule agentInvariant_afterCalls)
  have dk: "distinct (map fst cm)" and dw: "distinct wk" and sub: "set wk \<subseteq> fst ` set cm"
    using inv by (auto simp: agentInvariant_def countsInvariant_def cm_def wk_def)
  have cnt: "\<And>c m. (c, m) \<in> set cm \<Longrightarrow> correct m \<le> total' m \<and> 1 \<le> total' m"
    using inv by (auto simp: agentInvariant_def countsInvariant_def cm_def)
  have mo: "\<And>c m. map_of cm c = Some m \<longleftrightarrow> (c, m) \<in> set cm"
    using dk by (simp add: map_of_eq_Some_iff)
  have r: "r = sortBy (\<lambda>x y. numSub (toNumber (mastery x)) (toNumber (mastery y))) L"
    unfolding r_def generateRecommendedFocus_eq L_def fw_def fp_def cm_def wk_def ..
  have setW: "set (concat (map fw wk)) =
       {\<lparr>concept = c, type = ''weak'', mastery = percentageOf (correct m) (total' m)\<rparr> | c m.
          c \<in> set wk \<and> map_of cm c = Some m \<and> ratioBelow m (6 / 10)}"
    by (auto simp: fw_def split: option.splits if_splits) metis
  have setP: "set (concat (map fp cm)) =
       {\<lparr>concept = c, type = ''practice'', mastery = percentageOf (correct m) (total' m)\<rparr> | c m.
          c \<notin> set wk \<and> map_of cm c = Some m \<and> ratioBelow m (8 / 10)}"
    by (auto simp: fp_def mo split: if_splits)
  have setL: "set L =
       {\<lparr>concept = c, type = ''weak'', mastery = percentageOf (correct m) (total' m)\<rparr> | c m.
          c \<in> set wk \<and> map_of cm c = Some m \<and> ratioBelow m (6 / 10)} \<union>
       {\<lparr>concept = c, type = ''practice'', mastery = percentageOf (correct m) (total' m)\<rparr> | c m.
          c \<notin> set wk \<and> map_of cm c = Some m \<and> ratioBelow m (8 / 10)}"
    unfolding L_def set_append setW setP ..
  have dec: "\<forall>e \<in> set L. \<exists>n \<le> 10000. mastery e = FixedDecimal False n"
  proof
    fix e assume "e \<in> set L"
    then obtain c m where e: "mastery e = percentageOf (correct m) (total' m)"
        and m: "map_of cm c = Some m"
      unfolding setL by auto
    have "correct m \<le> total' m" "0 < total' m"
      using cnt[of c m] m mo by auto
    from percentageOf_shape[OF this] e
    show "\<exists>n \<le> 10000. mastery e = FixedDecimal False n" by auto
  qed
  have rs: "r = sort_key hundredths L"
    unfolding r using dec by (rule sortBy_sort_key)
  have cw: "map concept (concat (map fw wk)) =
      filter (\<lambda>c. \<exists>m. map_of cm c = Some m \<and> ratioBelow m (6 / 10)) wk"
    unfolding fw_def by (induction wk) (auto split: option.splits)
  have cp: "map concept (concat (map fp cm)) =
      map fst (filter (\<lambda>(c, m). c \<notin> set wk \<and> ratioBelow m (8 / 10)) cm)"
    unfolding fp_def by (induction cm) (auto split: if_splits)
  have dL: "distinct (map concept L)"
  proof -
    have 1: "distinct (map concept (concat (map fw wk)))"
      unfolding cw using dw by simp
    have 2: "distinct (map concept (concat (map fp cm)))"
      unfolding cp using dk by (simp add: distinct_map_filter)
    have 3: "set (map concept (concat (map fw wk))) \<inter>
             set (map concept (concat (map fp cm))) = {}"
      unfolding cw cp by auto
    show ?thesis unfolding L_def using 1 2 3 by simp
  qed
  have d: "distinct (map concept r)"
    unfolding rs using dL by (simp add: distinct_map)
  have sr: "set r = set L" unfolding rs by simp
  have so: "\<exists>ns. map mastery r = map (FixedDecimal False) ns \<and> sorted ns"
  proof (intro exI[of _ "map hundredths r"] conjI)
    have "\<forall>e \<in> set r. mastery e = FixedDecimal False (hundredths e)"
      using dec sr by (auto simp: hundredths_def)
    then show "map mastery r = map (FixedDecimal False) (map hundredths r)"
      by simp
    show "sorted (map hundredths r)" unfolding rs by (rule sorted_sort_key)
  qed
  have third: "\<forall>c \<in> set wk. \<exists>m. map_of cm c = Some m \<and>
        (\<not> ratioBelow m (6 / 10) \<longrightarrow> c \<notin> concept ` set r)"
  proof
    fix c assume c: "c \<in> set wk"
    then obtain m where m: "map_of cm c = Some m"
      using sub mo by fastforce
    have "\<not> ratioBelow m (6 / 10) \<Longrightarrow> c \<notin> concept ` set r"
      unfolding sr setL using m c by auto
    then show "\<exists>m. map_of cm c = Some m \<and>
        (\<not> ratioBelow m (6 / 10) \<longrightarrow> c \<notin> concept ` set r)"
      using m by blast
  qed
  have last: "\<forall>(c, m) \<in> set cm. total' m < 2 ^ 48 \<longrightarrow>
        (ratioBelow m (6 / 10) \<longleftrightarrow> 10 * correct m < 6 * total' m) \<and>
        (ratioBelow m (8 / 10) \<longleftrightarrow> 10 * correct m < 8 * total' m) \<and>
        (\<exists>n. percentageOf (correct m) (total' m) = FixedDecimal False n \<and>
             \<bar>of_nat n - 10000 * of_nat (correct m) / of_nat (total' m)\<bar>
               \<le> (1 / 2 + 1 / 10 ^ 10 :: rat))"
    using cnt counted_entry by blast
  show ?thesis
    unfolding Let_def a_def[symmetric] r_def[symmetric] cm_def[symmetric] wk_def[symmetric]
    using d sr setL third so last by simp
qed

lemma reorder_weakAreas: "weakAreas (afterCalls reorderCalls) = [''class'', ''function'']"
  by code_simp

lemma reorder_conceptMastery:
  "conceptMastery (afterCalls reorderCalls) =
     [(''class'', \<lparr>correct = 1, total' = 2\<rparr>), (''function'', \<lparr>correct = 0, total' = 1\<rparr>),
      (''loop'', \<lparr>correct = 3, total' = 4\<rparr>)]"
  by code_simp

lemma reorder_values:
  "percentageOf 1 2 = FixedDecimal False 5000"
  "percentageOf 0 1 = FixedDecimal False 0"
  "percentageOf 3 4 = FixedDecimal False 7500"
  "ratioBelow \<lparr>correct = 1, total' = 2\<rparr> (6 / 10)"
  "ratioBelow \<lparr>correct = 0, total' = 1\<rparr> (6 / 10)"
  "ratioBelow \<lparr>correct = 3, total' = 4\<rparr> (8 / 10)"
  by code_simp+

lemma reorder_focus:
  "generateRecommendedFocus (afterCalls reorderCalls) =
     [\<lparr>concept = ''function'', type = ''weak'', mastery = FixedDecimal False 0\<rparr>,
      \<lparr>concept = ''class'', type = ''weak'', mastery = FixedDecimal False 5000\<rparr>,
      \<lparr>concept = ''loop'', type = ''practice'', mastery = FixedDecimal False 7500\<rparr>]"
  unfolding generateRecommendedFocus_eq reorder_weakAreas reorder_conceptMastery
  by (simp add: reorder_values[simplified] sortBy_def compare_decimals del: toNumber.simps)

lemma rounded_percentages:
  "percentageOf 51 160 = FixedDecimal False 3187"
  "percentageOf 29 91 = FixedDecimal False 3187"
  "percentageOf 23 160 = FixedDecimal False 1437"
  by code_simp+

text \<open>
  In \<open>reorderCalls\<close> the weak areas are "class" (1 of 2) and then "function" (0 of 1), and
  "loop" (3 of 4) is no weak area: the sort moves "function" before "class". The ratio of
  "class" is below 0.6 as 10 * 1 < 6 * 2. In binary64 arithmetic 51 of 160 is 31.87 percent
  (the quotient is just below 0.31875), as 29 of 91 is.
\<close>

theorem generateRecommendedFocus_exact_witness:
  "weakAreas (afterCalls reorderCalls) = [''class'', ''function''] \<and>
   generateRecommendedFocus (afterCalls reorderCalls) =
     [\<lparr>concept = ''function'', type = ''weak'', mastery = FixedDecimal False 0\<rparr>,
      \<lparr>concept = ''class'', type = ''weak'', mastery = FixedDecimal False 5000\<rparr>,
      \<lparr>concept = ''loop'', type = ''practice'', mastery = FixedDecimal False 7500\<rparr>] \<and>
   distinct (map concept (generateRecommendedFocus (afterCalls reorderCalls))) \<and>
   (\<exists>ns. map mastery (generateRecommendedFocus (afterCalls reorderCalls)) =
           map (FixedDecimal False) ns \<and> sorted ns) \<and>
   (''class'', \<lparr>correct = 1, total' = 2\<rparr>) \<in> set (conceptMastery (afterCalls reorderCalls)) \<and>
   (2::nat) < 2 ^ 48 \<and>
   ratioBelow \<lparr>correct = 1, total' = 2\<rparr> (6 / 10) \<and>
   percentageOf 51 160 = FixedDecimal False 3187 \<and>
   percentageOf 29 91 = FixedDecimal False 3187"
proof -
  note t = generateRecommendedFocus_exact[of reorderCalls, unfolded Let_def]
  have d: "distinct (map concept (generateRecommendedFocus (afterCalls reorderCalls)))"
    by (rule t[THEN conjunct1])
  have s: "\<exists>ns. map mastery (generateRecommendedFocus (afterCalls reorderCalls)) =
           map (FixedDecimal False) ns \<and> sorted ns"
    by (rule t[THEN conjunct2, THEN conjunct2, THEN conjunct2, THEN conjunct1])
  have m: "(''class'', \<lparr>correct = 1, total' = 2\<rparr>) \<in> set (conceptMastery (afterCalls reorderCalls))"
    by (simp add: reorder_conceptMastery)
  have b: "(2::nat) < 2 ^ 48" by simp
  from t[THEN conjunct2, THEN conjunct2, THEN conjunct2, THEN conjunct2, THEN bspec, OF m]
  have "ratioBelow \<lparr>correct = 1, total' = 2\<rparr> (6 / 10) \<longleftrightarrow> 10 * (1::nat) < 6 * 2"
    using b by simp
  then have r: "ratioBelow \<lparr>correct = 1, total' = 2\<rparr> (6 / 10)" by simp
  show ?thesis
    using reorder_weakAreas reorder_focus d s m b r rounded_percentages(1,2)
    by (intro conjI)
qed

section \<open>The time of a topic\<close>

lemma timeSamples_snoc:
  "timeSamples topic (calls @ [c]) = timeSamples topic calls @ callSample topic c"
  by (simp add: timeSamples_def)

lemma timeSamples_none:
  "topic \<notin> callTopic ` set calls \<Longrightarrow> timeSamples topic calls = []"
proof (induction calls)
  case Nil
  then show ?case by (simp add: timeSamples_def)
next
  case (Cons c calls)
  then show ?case by (cases c) (auto simp: timeSamples_def split: option.splits)
qed

lemma truthy_Some: "truthy tt \<Longrightarrow> \<exists>t. tt = Some t"
  by (cases tt) auto

text \<open>
  For a topic that is not the name of a property of \<^verbatim>\<open>Object.prototype\<close>: it has statistics
  as soon as a call named it, \<open>timeSpent\<close> holds its samples, and \<open>averageTime\<close> is the number 0
  without samples and the string of the mean of the samples otherwise.
\<close>

lemma timeRecorded_afterCalls:
  assumes "topic \<notin> set objectPrototypeKeys"
  shows "timeRecorded topic calls"
proof (induction calls rule: rev_induct)
  case Nil
  then show ?case
    by (simp add: timeRecorded_def afterCalls_def newProgressTrackingAgent_def timeSamples_def)
next
  case (snoc c calls)
  obtain tp q b ev tt now where c: "c = TrackAnswer tp q b ev tt now" by (cases c)
  define a where "a = afterCalls calls"
  define S where "S = timeSamples topic calls"
  have inv: "agentInvariant a" unfolding a_def by (rule agentInvariant_afterCalls)
  have ih: "(topicPerformance a topic = None \<longleftrightarrow> topic \<notin> callTopic ` set calls)"
    "timeSpent a topic = (if S = [] then None else Some S)"
    "\<And>stats. topicPerformance a topic = Some stats \<Longrightarrow>
         averageTime stats = (if S = [] then NumberValue (Finite 0)
                              else StringValue (toFixed2 (arithmeticMean S)))"
    using snoc by (simp_all add: timeRecorded_def Let_def a_def S_def)
  have step: "afterCalls (calls @ [c]) = snd (trackAnswer a tp q b ev tt now)"
    by (simp add: afterCalls_snoc c a_def)
  show ?case
  proof (cases "tp \<in> set objectPrototypeKeys")
    case True
    then have n: "topicPerformance a tp = None" "timeSpent a tp = None"
      using inv by (auto simp: agentInvariant_def)
    have ne: "tp \<noteq> topic" using True assms by auto
    have same: "topicPerformance (afterCalls (calls @ [c])) = topicPerformance a"
      "timeSpent (afterCalls (calls @ [c])) = timeSpent a"
      unfolding step trackAnswer_inherited[OF n(1) True n(2)]
      by (auto simp: counted_def split: list.splits)
    have s: "timeSamples topic (calls @ [c]) = S"
      using ne by (simp add: timeSamples_snoc c S_def split: option.splits)
    show ?thesis
      unfolding timeRecorded_def Let_def same s using ih ne by (auto simp: c)
  next
    case False
    show ?thesis
    proof (cases "tp = topic")
      case ne: False
      have same: "topicPerformance (afterCalls (calls @ [c])) topic = topicPerformance a topic"
        "timeSpent (afterCalls (calls @ [c])) topic = timeSpent a topic"
        unfolding step trackAnswer_own[OF False] using ne by (simp_all add: Let_def)
      have s: "timeSamples topic (calls @ [c]) = S"
        using ne by (simp add: timeSamples_snoc c S_def split: option.splits)
      show ?thesis
        unfolding timeRecorded_def Let_def same s using ih ne by (auto simp: c)
    next
      case eq: True
      have S0: "topicPerformance a topic = None \<Longrightarrow> S = []"
        using ih(1) timeSamples_none unfolding S_def by blast
      have s: "timeSamples topic (calls @ [c]) = (if truthy tt then S @ [the tt] else S)"
        using eq truthy_Some[of tt]
        by (auto simp: timeSamples_snoc c S_def split: option.splits)
      have av0: "averageTime (case topicPerformance a topic of
                                Some s \<Rightarrow> s | None \<Rightarrow> newTopicStats)
          = (if S = [] then NumberValue (Finite 0)
             else StringValue (toFixed2 (arithmeticMean S)))"
        using ih(3) S0 by (auto simp: newTopicStats_def split: option.splits)
      show ?thesis
        unfolding timeRecorded_def Let_def s step trackAnswer_own[OF False]
        using eq av0 ih(2) by (cases "S = []") (auto simp: c)
    qed
  qed
qed

text \<open>Every call is counted, also one that throws.\<close>

lemma totalQuestions_afterCalls: "totalQuestions (afterCalls calls) = length calls"
proof (induction calls rule: rev_induct)
  case Nil
  then show ?case by (simp add: afterCalls_def newProgressTrackingAgent_def)
next
  case (snoc c calls)
  obtain tp q b ev tt now where c: "c = TrackAnswer tp q b ev tt now" by (cases c)
  define a where "a = afterCalls calls"
  have inv: "agentInvariant a" unfolding a_def by (rule agentInvariant_afterCalls)
  have step: "afterCalls (calls @ [c]) = snd (trackAnswer a tp q b ev tt now)"
    by (simp add: afterCalls_snoc c a_def)
  have "totalQuestions (snd (trackAnswer a tp q b ev tt now)) = totalQuestions a + 1"
  proof (cases "tp \<in> set objectPrototypeKeys")
    case True
    then have n: "topicPerformance a tp = None" "timeSpent a tp = None"
      using inv by (auto simp: agentInvariant_def)
    show ?thesis
      unfolding trackAnswer_inherited[OF n(1) True n(2)]
      by (auto simp: counted_def split: list.splits)
  next
    case False
    show ?thesis
      unfolding trackAnswer_own[OF False] by (simp add: Let_def)
  qed
  then show ?case using snoc by (simp add: step a_def)
qed

section \<open>The report\<close>

lemma topicWise_report:
  "topicWise (getPerformanceReport a) topic =
     (case topicPerformance a topic of
        None \<Rightarrow> None
      | Some stats \<Rightarrow>
          Some \<lparr>correct = correct stats, total' = total' stats,
                percentage = percentageOf (correct stats) (total' stats),
                reportedWeakAreas = topicWeakAreas stats,
                reportedAverageTime = averageTime stats\<rparr>)"
  by (simp add: getPerformanceReport_def)

text \<open>The \<open>mastery\<close> of every recommendation is a decimal without sign from 0.00 to 100.00.\<close>

lemma recommendations_decimal:
  assumes "countsInvariant (conceptMastery a)"
  shows "\<forall>e \<in> set (generateRecommendedFocus a). \<exists>n \<le> 10000. mastery e = FixedDecimal False n"
proof -
  define L where "L =
       concat (map (\<lambda>c. case map_of (conceptMastery a) c of
                     None \<Rightarrow> []
                   | Some m \<Rightarrow>
                       if ratioBelow m (6 / 10)
                       then [\<lparr>concept = c, type = ''weak'',
                              mastery = percentageOf (correct m) (total' m)\<rparr>]
                       else []) (weakAreas a)) @
        concat (map (\<lambda>(c, stats).
                       if c \<notin> set (weakAreas a) \<and> ratioBelow stats (8 / 10)
                       then [\<lparr>concept = c, type = ''practice'',
                              mastery = percentageOf (correct stats) (total' stats)\<rparr>]
                       else []) (conceptMastery a))"
  have cnt: "\<And>c m. (c, m) \<in> set (conceptMastery a) \<Longrightarrow> correct m \<le> total' m \<and> 0 < total' m"
    using assms by (fastforce simp: countsInvariant_def)
  have dec: "\<forall>e \<in> set L. \<exists>n \<le> 10000. mastery e = FixedDecimal False n"
  proof
    fix e assume "e \<in> set L"
    then obtain c m where e: "mastery e = percentageOf (correct m) (total' m)"
        and m: "(c, m) \<in> set (conceptMastery a)"
      unfolding L_def by (auto split: option.splits if_splits) (metis map_of_SomeD)
    from cnt[OF m] have "correct m \<le> total' m" "0 < total' m" by simp_all
    from percentageOf_shape[OF this] e
    show "\<exists>n \<le> 10000. mastery e = FixedDecimal False n" by auto
  qed
  have "generateRecommendedFocus a = sort_key hundredths L"
    unfolding generateRecommendedFocus_eq L_def[symmetric] using dec by (rule sortBy_sort_key)
  then show ?thesis using dec by simp
qed

text \<open>
  Claim C5, as the code has it. \<open>getPerformanceReport\<close> throws nothing. Its \<open>overall.total\<close>
  is the number of calls, and \<open>overall.percentage\<close> is the string \<^verbatim>\<open>NaN\<close> exactly when no
  answer was recorded: what \<^verbatim>\<open>((0 / 0) * 100).toFixed(2)\<close> gives. No other percentage has a
  zero denominator: every entry of \<open>topicWise\<close> and of \<open>conceptMastery\<close> has a total of at
  least 1, and its percentage, like \<open>overall.percentage\<close> after the first call and the
  \<open>mastery\<close> of every recommendation, is a decimal from 0.00 to 100.00. The zero-length
  guard of \<open>calculateAverageTime\<close> is never reached, as \<open>timeSpent\<close> holds no empty array; on
  the fresh agent \<open>calculateAverageTime\<close> throws a \<^verbatim>\<open>TypeError\<close> for every topic that is not
  the name of a property of \<^verbatim>\<open>Object.prototype\<close>.
\<close>

theorem getPerformanceReport_percentages:
  "let a = afterCalls calls; r = getPerformanceReport a in
     total' (overall r) = length calls \<and>
     (percentage (overall r) = FixedNaN \<longleftrightarrow> calls = []) \<and>
     render FixedNaN = Some ''NaN'' \<and>
     (calls \<noteq> [] \<longrightarrow> (\<exists>n \<le> 10000. percentage (overall r) = FixedDecimal False n)) \<and>
     (\<forall>topic e. topicWise r topic = Some e \<longrightarrow>
        1 \<le> total' e \<and> (\<exists>n \<le> 10000. percentage e = FixedDecimal False n)) \<and>
     (\<forall>(c, e) \<in> set (conceptMasteryReport r).
        1 \<le> total' e \<and> (\<exists>n \<le> 10000. percentage e = FixedDecimal False n)) \<and>
     (\<forall>e \<in> set (recommendedFocus r). \<exists>n \<le> 10000. mastery e = FixedDecimal False n) \<and>
     (\<forall>topic. timeSpent a topic \<noteq> Some []) \<and>
     (calls = [] \<longrightarrow>
        (\<forall>topic. topic \<notin> set objectPrototypeKeys \<longrightarrow>
           calculateAverageTime a topic = Inl TypeError))"
proof -
  define a where "a = afterCalls calls"
  define r where "r = getPerformanceReport a"
  have inv: "agentInvariant a" unfolding a_def by (rule agentInvariant_afterCalls)
  have tq: "totalQuestions a = length calls"
    unfolding a_def by (rule totalQuestions_afterCalls)
  have ov: "total' (overall r) = length calls"
    "percentage (overall r) = percentageOf (correctAnswers a) (totalQuestions a)"
    by (simp_all add: r_def getPerformanceReport_def tq)
  have le: "correctAnswers a \<le> totalQuestions a"
    using inv by (simp add: agentInvariant_def)
  have 1: "total' (overall r) = length calls" by (rule ov(1))
  have 3: "render FixedNaN = Some ''NaN''" by simp
  have 4: "\<exists>n \<le> 10000. percentage (overall r) = FixedDecimal False n" if "calls \<noteq> []"
  proof -
    have "0 < totalQuestions a" using that tq by simp
    from percentageOf_shape[OF le this] show ?thesis unfolding ov(2) by auto
  qed
  have 2: "percentage (overall r) = FixedNaN \<longleftrightarrow> calls = []"
  proof (cases "calls = []")
    case True
    then have "correctAnswers a = 0" "totalQuestions a = 0" using le tq by simp_all
    moreover have "percentageOf 0 0 = FixedNaN" by code_simp
    ultimately show ?thesis using True by (simp add: ov(2))
  next
    case False
    then show ?thesis using 4 by auto
  qed
  have 5: "\<forall>topic e. topicWise r topic = Some e \<longrightarrow>
        1 \<le> total' e \<and> (\<exists>n \<le> 10000. percentage e = FixedDecimal False n)"
  proof (intro allI impI)
    fix topic e assume e: "topicWise r topic = Some e"
    then obtain stats where st: "topicPerformance a topic = Some stats"
        and ee: "total' e = total' stats"
          "percentage e = percentageOf (correct stats) (total' stats)"
      unfolding r_def topicWise_report by (auto split: option.splits)
    have b: "correct stats \<le> total' stats" "1 \<le> total' stats"
      using inv st by (auto simp: agentInvariant_def)
    then have "0 < total' stats" by simp
    from percentageOf_shape[OF b(1) this] b(2)
    show "1 \<le> total' e \<and> (\<exists>n \<le> 10000. percentage e = FixedDecimal False n)"
      unfolding ee by auto
  qed
  have 6: "\<forall>(c, e) \<in> set (conceptMasteryReport r).
        1 \<le> total' e \<and> (\<exists>n \<le> 10000. percentage e = FixedDecimal False n)"
  proof (clarify)
    fix c e assume "(c, e) \<in> set (conceptMasteryReport r)"
    then obtain stats where st: "(c, stats) \<in> set (conceptMastery a)"
        and ee: "total' e = total' stats"
          "percentage e = percentageOf (correct stats) (total' stats)"
      unfolding r_def getPerformanceReport_def by auto
    have b: "correct stats \<le> total' stats" "1 \<le> total' stats"
      using inv st by (auto simp: agentInvariant_def countsInvariant_def)
    then have "0 < total' stats" by simp
    from percentageOf_shape[OF b(1) this] b(2)
    show "1 \<le> total' e \<and> (\<exists>n \<le> 10000. percentage e = FixedDecimal False n)"
      unfolding ee by auto
  qed
  have 7: "\<forall>e \<in> set (recommendedFocus r). \<exists>n \<le> 10000. mastery e = FixedDecimal False n"
  proof -
    have "countsInvariant (conceptMastery a)" using inv by (simp add: agentInvariant_def)
    from recommendations_decimal[OF this] show ?thesis
      by (simp add: r_def getPerformanceReport_def)
  qed
  have 8: "\<forall>topic. timeSpent a topic \<noteq> Some []"
  proof
    fix topic
    show "timeSpent a topic \<noteq> Some []"
    proof (cases "topic \<in> set objectPrototypeKeys")
      case True
      then show ?thesis using inv by (auto simp: agentInvariant_def)
    next
      case False
      from timeRecorded_afterCalls[OF this, of calls] show ?thesis
        by (auto simp: timeRecorded_def Let_def a_def)
    qed
  qed
  have 9: "\<forall>topic. topic \<notin> set objectPrototypeKeys \<longrightarrow>
        calculateAverageTime a topic = Inl TypeError" if "calls = []"
    using that
    by (simp add: a_def afterCalls_def newProgressTrackingAgent_def calculateAverageTime_def
          getProperty_def)
  show ?thesis
    unfolding Let_def a_def[symmetric] r_def[symmetric]
    using 1 2 3 4 5 6 7 8 9 by (intro conjI impI)
qed

lemma sample_correctAnswers: "correctAnswers (afterCalls sampleCalls) = 5"
  by code_simp

lemma sample_timeSamples:
  "timeSamples ''JS'' sampleCalls = [Finite 5, Finite 2, Finite 2]"
  "timeSamples ''Arrays'' sampleCalls = []"
  by code_simp+

text \<open>
  In \<open>sampleCalls\<close> five of the ten answers are right and JS is a topic, with two right
  answers of six; before any call, the average time of JS cannot be computed.
\<close>

theorem getPerformanceReport_percentages_witness:
  "sampleCalls \<noteq> [] \<and>
   total' (overall (getPerformanceReport (afterCalls sampleCalls))) = 10 \<and>
   percentage (overall (getPerformanceReport (afterCalls sampleCalls))) \<noteq> FixedNaN \<and>
   percentage (overall (getPerformanceReport (afterCalls sampleCalls))) = FixedDecimal False 5000 \<and>
   (\<exists>e. topicWise (getPerformanceReport (afterCalls sampleCalls)) ''JS'' = Some e \<and>
        total' e = 6 \<and> 1 \<le> total' e \<and> percentage e = FixedDecimal False 3333) \<and>
   ''JS'' \<notin> set objectPrototypeKeys \<and>
   calculateAverageTime (afterCalls []) ''JS'' = Inl TypeError"
proof -
  note t = getPerformanceReport_percentages[of sampleCalls, unfolded Let_def]
  have ne: "sampleCalls \<noteq> []" by (simp add: sampleCalls_def)
  have l: "length sampleCalls = 10" by (simp add: sampleCalls_def)
  have 1: "total' (overall (getPerformanceReport (afterCalls sampleCalls))) = 10"
    using t[THEN conjunct1] l by simp
  have 2: "percentage (overall (getPerformanceReport (afterCalls sampleCalls))) \<noteq> FixedNaN"
    using t[THEN conjunct2, THEN conjunct1] ne by simp
  have v: "percentageOf 5 10 = FixedDecimal False 5000" "percentageOf 2 6 = FixedDecimal False 3333"
    by code_simp+
  have 3: "percentage (overall (getPerformanceReport (afterCalls sampleCalls))) =
      FixedDecimal False 5000"
    using v(1) t[THEN conjunct1] l
    by (simp add: getPerformanceReport_def sample_correctAnswers)
  define e :: topicReport where
    "e = \<lparr>correct = 2, total' = 6, percentage = FixedDecimal False 3333,
          reportedWeakAreas = [''function'', ''loop''],
          reportedAverageTime = StringValue (FixedDecimal False 300)\<rparr>"
  have tw: "topicWise (getPerformanceReport (afterCalls sampleCalls)) ''JS'' = Some e"
    by (simp add: topicWise_report sample_JS v(2) e_def)
  from t[THEN conjunct2, THEN conjunct2, THEN conjunct2, THEN conjunct2, THEN conjunct1,
         THEN spec, THEN spec, THEN mp, OF tw]
  have "1 \<le> total' e" by (rule conjunct1)
  then have 4: "\<exists>e. topicWise (getPerformanceReport (afterCalls sampleCalls)) ''JS'' = Some e \<and>
        total' e = 6 \<and> 1 \<le> total' e \<and> percentage e = FixedDecimal False 3333"
    using tw by (intro exI[of _ e]) (simp add: e_def)
  have p: "''JS'' \<notin> set objectPrototypeKeys" by (simp add: objectPrototypeKeys_def)
  have 5: "calculateAverageTime (afterCalls []) ''JS'' = Inl TypeError"
    using getPerformanceReport_percentages[of "[]", unfolded Let_def, THEN conjunct2,
            THEN conjunct2, THEN conjunct2, THEN conjunct2, THEN conjunct2, THEN conjunct2,
            THEN conjunct2, THEN conjunct2] p
    by simp
  show ?thesis using ne 1 2 3 4 p 5 by (intro conjI)
qed

text \<open>
  Claim C5 as stated fails on the fresh agent: \<open>overall.total\<close> is 0 and nothing is thrown, but
  \<open>overall.percentage\<close> is the string \<^verbatim>\<open>NaN\<close>, the NaN of \<^verbatim>\<open>0 / 0\<close> passed on through
  \<^verbatim>\<open>* 100\<close> and \<^verbatim>\<open>toFixed(2)\<close>, not zero or \<^verbatim>\<open>null\<close>; and the average time of a topic
  without samples is not computed as a value either: \<open>calculateAverageTime\<close> throws.
\<close>

theorem report_of_fresh_agent_counterexample:
  "overall (getPerformanceReport newProgressTrackingAgent) =
     \<lparr>correct = 0, total' = 0, percentage = FixedNaN\<rparr> \<and>
   render FixedNaN = Some ''NaN'' \<and>
   calculateAverageTime newProgressTrackingAgent ''JS'' = Inl TypeError"
  by code_simp

section \<open>The average time of a topic\<close>

lemma digit_in: "d < 10 \<Longrightarrow> digit d \<in> set ''0123456789''"
proof -
  assume "d < 10"
  then have "d \<in> {0, 1, 2, 3, 4, 5, 6, 7, 8, 9}" by auto
  then show ?thesis by (auto simp: digit_def)
qed

lemma digits_in: "set (digits n) \<subseteq> set ''0123456789''"
proof (induction n rule: digits.induct)
  case (1 n)
  show ?case
  proof (cases "n < 10")
    case True
    then show ?thesis using digit_in[of n] by (subst digits.simps) simp
  next
    case False
    have "digit (n mod 10) \<in> set ''0123456789''" by (rule digit_in) simp
    then show ?thesis using False 1 by (subst digits.simps) simp
  qed
qed

lemma digits_not_Nil: "digits n \<noteq> []"
  by (subst digits.simps) simp

text \<open>The string of \<^verbatim>\<open>toFixed(2)\<close> for a finite number below \<open>10^21\<close> in magnitude.\<close>

lemma render_decimal:
  fixes x :: rat
  assumes "\<bar>x\<bar> < 10 ^ 21"
  shows "\<exists>sign whole d1 d2.
           render (toFixed2 (Finite x)) = Some (sign @ whole @ ''.'' @ [d1, d2]) \<and>
           (sign = [] \<or> sign = ''-'') \<and> whole \<noteq> [] \<and>
           set whole \<subseteq> set ''0123456789'' \<and>
           d1 \<in> set ''0123456789'' \<and> d2 \<in> set ''0123456789''"
proof -
  define n where "n = nat \<lfloor>\<bar>x\<bar> * 100 + 1 / 2\<rfloor>"
  have "render (toFixed2 (Finite x)) =
      Some ((if x < 0 then ''-'' else []) @ digits (n div 100) @ ''.'' @
            [digit (n mod 100 div 10), digit (n mod 10)])"
    using assms by (simp add: n_def)
  moreover have "digit (n mod 100 div 10) \<in> set ''0123456789''"
    by (rule digit_in) (simp add: less_mult_imp_div_less)
  moreover have "digit (n mod 10) \<in> set ''0123456789''"
    by (rule digit_in) simp
  ultimately show ?thesis
    using digits_in[of "n div 100"] digits_not_Nil[of "n div 100"]
    by (intro exI[of _ "if x < 0 then ''-'' else []"] exI[of _ "digits (n div 100)"]
          exI[of _ "digit (n mod 100 div 10)"] exI[of _ "digit (n mod 10)"]) simp
qed

text \<open>
  Claim C10, as the code has it. For every topic with an entry in the report (a topic that
  a call has named and that is not the name of a property of \<^verbatim>\<open>Object.prototype\<close>): without a
  truthy \<open>timeTaken\<close> among its calls the reported average time is the number 0; otherwise it
  is the string that \<^verbatim>\<open>toFixed(2)\<close> gives for the mean of the topic's truthy samples as
  binary64 arithmetic computes it (\<open>arithmeticMean\<close>). That string has a whole part, a point
  and exactly two digits when the computed mean is finite and below \<open>10^21\<close> in magnitude.
  A number in one case and a string in the other: the two shapes differ.
\<close>

theorem averageTime_shapes:
  assumes "topic \<notin> set objectPrototypeKeys" "topic \<in> callTopic ` set calls"
  shows "\<exists>entry. topicWise (getPerformanceReport (afterCalls calls)) topic = Some entry \<and>
     (timeSamples topic calls = [] \<longrightarrow> reportedAverageTime entry = NumberValue (Finite 0)) \<and>
     (timeSamples topic calls \<noteq> [] \<longrightarrow>
        reportedAverageTime entry =
          StringValue (toFixed2 (arithmeticMean (timeSamples topic calls))) \<and>
        (\<forall>x. arithmeticMean (timeSamples topic calls) = Finite x \<and> \<bar>x\<bar> < 10 ^ 21 \<longrightarrow>
           (\<exists>sign whole d1 d2.
              render (toFixed2 (Finite x)) = Some (sign @ whole @ ''.'' @ [d1, d2]) \<and>
              (sign = [] \<or> sign = ''-'') \<and> whole \<noteq> [] \<and>
              set whole \<subseteq> set ''0123456789'' \<and>
              d1 \<in> set ''0123456789'' \<and> d2 \<in> set ''0123456789'')))"
proof -
  have tr: "timeRecorded topic calls"
    using assms(1) by (rule timeRecorded_afterCalls)
  then obtain stats where st: "topicPerformance (afterCalls calls) topic = Some stats"
    using assms(2) by (auto simp: timeRecorded_def Let_def)
  have av: "averageTime stats =
      (if timeSamples topic calls = [] then NumberValue (Finite 0)
       else StringValue (toFixed2 (arithmeticMean (timeSamples topic calls))))"
    using tr st by (simp add: timeRecorded_def Let_def)
  define e :: topicReport where
    "e = \<lparr>correct = correct stats, total' = total' stats,
          percentage = percentageOf (correct stats) (total' stats),
          reportedWeakAreas = topicWeakAreas stats,
          reportedAverageTime = averageTime stats\<rparr>"
  have tw: "topicWise (getPerformanceReport (afterCalls calls)) topic = Some e"
    by (simp add: topicWise_report st e_def)
  have ra: "reportedAverageTime e = averageTime stats"
    by (simp add: e_def)
  show ?thesis
  proof (intro exI[of _ e] conjI impI allI)
    show "topicWise (getPerformanceReport (afterCalls calls)) topic = Some e"
      by (rule tw)
    show "reportedAverageTime e = NumberValue (Finite 0)" if "timeSamples topic calls = []"
      using that ra av by simp
    show "reportedAverageTime e =
        StringValue (toFixed2 (arithmeticMean (timeSamples topic calls)))"
      if "timeSamples topic calls \<noteq> []"
      using that ra av by simp
    show "\<exists>sign whole d1 d2.
              render (toFixed2 (Finite x)) = Some (sign @ whole @ ''.'' @ [d1, d2]) \<and>
              (sign = [] \<or> sign = ''-'') \<and> whole \<noteq> [] \<and>
              set whole \<subseteq> set ''0123456789'' \<and>
              d1 \<in> set ''0123456789'' \<and> d2 \<in> set ''0123456789''"
      if "arithmeticMean (timeSamples topic calls) = Finite x \<and> \<bar>x\<bar> < 10 ^ 21" for x
      using that by (intro render_decimal) simp
  qed
qed

lemma sample_mean: "toFixed2 (arithmeticMean [Finite 5, Finite 2, Finite 2]) = FixedDecimal False 300"
  by code_simp

lemma timed_timeSamples:
  "timeSamples ''JS'' timedCalls = [Finite 1, Finite 1, Finite 1, Finite 1, Finite (9 / 8)]"
  by code_simp

lemma timed_mean:
  "toFixed2 (arithmeticMean [Finite 1, Finite 1, Finite 1, Finite 1, Finite (9 / 8)]) =
     FixedDecimal False 102"
  by code_simp

text \<open>
  In \<open>sampleCalls\<close> the topic JS has the samples 5, 2 and 2, and the topic Arrays has none
  (its one \<open>timeTaken\<close> is 0). In \<open>timedCalls\<close> the samples of JS are 1, 1, 1, 1 and 1.125:
  their sum 5.125 divided by 5 is the binary64 value just below 1.025, printed as
  \<^verbatim>\<open>1.02\<close>.
\<close>

theorem averageTime_shapes_witness:
  "''JS'' \<notin> set objectPrototypeKeys \<and> ''JS'' \<in> callTopic ` set sampleCalls \<and>
   ''Arrays'' \<notin> set objectPrototypeKeys \<and> ''Arrays'' \<in> callTopic ` set sampleCalls \<and>
   ''JS'' \<in> callTopic ` set timedCalls \<and>
   (\<exists>entry. topicWise (getPerformanceReport (afterCalls sampleCalls)) ''JS'' = Some entry \<and>
      reportedAverageTime entry = StringValue (FixedDecimal False 300)) \<and>
   render (FixedDecimal False 300) = Some ''3.00'' \<and>
   (\<exists>entry. topicWise (getPerformanceReport (afterCalls sampleCalls)) ''Arrays'' = Some entry \<and>
      reportedAverageTime entry = NumberValue (Finite 0)) \<and>
   (\<exists>entry. topicWise (getPerformanceReport (afterCalls timedCalls)) ''JS'' = Some entry \<and>
      reportedAverageTime entry = StringValue (FixedDecimal False 102)) \<and>
   render (FixedDecimal False 102) = Some ''1.02''"
proof -
  have p: "''JS'' \<notin> set objectPrototypeKeys" "''Arrays'' \<notin> set objectPrototypeKeys"
    by (simp_all add: objectPrototypeKeys_def)
  have c: "''JS'' \<in> callTopic ` set sampleCalls" "''Arrays'' \<in> callTopic ` set sampleCalls"
    "''JS'' \<in> callTopic ` set timedCalls"
    by (simp_all add: sampleCalls_def timedCalls_def)
  have r: "render (FixedDecimal False 300) = Some ''3.00''"
    "render (FixedDecimal False 102) = Some ''1.02''" by code_simp+
  from averageTime_shapes[OF p(1) c(1)]
  have 1: "\<exists>entry. topicWise (getPerformanceReport (afterCalls sampleCalls)) ''JS'' = Some entry \<and>
      reportedAverageTime entry = StringValue (FixedDecimal False 300)"
    unfolding sample_timeSamples sample_mean by auto
  from averageTime_shapes[OF p(2) c(2)]
  have 2: "\<exists>entry. topicWise (getPerformanceReport (afterCalls sampleCalls)) ''Arrays'' = Some entry \<and>
      reportedAverageTime entry = NumberValue (Finite 0)"
    unfolding sample_timeSamples by auto
  from averageTime_shapes[OF p(1) c(3)]
  have 3: "\<exists>entry. topicWise (getPerformanceReport (afterCalls timedCalls)) ''JS'' = Some entry \<and>
      reportedAverageTime entry = StringValue (FixedDecimal False 102)"
    unfolding timed_timeSamples timed_mean by auto
  show ?thesis using p c r 1 2 3 by (intro conjI)
qed

text \<open>
  Claim C10 as stated fails: with the one sample \<open>10^21\<close> (a finite, truthy number) the
  reported average time is the exponent notation \<^verbatim>\<open>1e+21\<close>, and with the one sample
  \<^verbatim>\<open>Infinity\<close> (truthy as well) it is the string \<^verbatim>\<open>Infinity\<close>: neither has two decimal digits.
\<close>

theorem averageTime_not_decimal_counterexample:
  "topicWise (getPerformanceReport
       (afterCalls [TrackAnswer ''JS'' ''Write a loop'' True ''Correct!''
                      (Some (Finite (10 ^ 21))) 0]))
     ''JS'' =
     Some \<lparr>correct = 1, total' = 1, percentage = FixedDecimal False 10000,
            reportedWeakAreas = [], reportedAverageTime = StringValue (FixedExponent (10 ^ 21))\<rparr> \<and>
   topicWise (getPerformanceReport
       (afterCalls [TrackAnswer ''JS'' ''Write a loop'' True ''Correct!'' (Some Infinity) 0]))
     ''JS'' =
     Some \<lparr>correct = 1, total' = 1, percentage = FixedDecimal False 10000,
            reportedWeakAreas = [], reportedAverageTime = StringValue FixedInfinity\<rparr> \<and>
   render FixedInfinity = Some ''Infinity''"
  by code_simp

end
